theory Spec2Isabelle
  imports Complex_Main
begin

section \<open>Python values: exceptions, indexing, loops\<close>

text \<open>
  The program is \<^verbatim>\<open>badger_os/examples/conway.py\<close>. The only exception its grid code can
  raise is Python's \<^verbatim>\<open>IndexError\<close>; a computation that may raise returns
  \<open>error + 'a\<close>, with \<open>Inl\<close> for the exception.
\<close>

datatype error = IndexError

definition bind_err :: "error + 'a \<Rightarrow> ('a \<Rightarrow> error + 'b) \<Rightarrow> error + 'b" where
  "bind_err m f = (case m of Inl e \<Rightarrow> Inl e | Inr v \<Rightarrow> f v)"

text \<open>
  \<^verbatim>\<open>xs[i]\<close> and \<^verbatim>\<open>xs[i] = v\<close> on a Python list: an index below zero counts from
  the end of the list, and an index that is still out of range raises.
\<close>

definition py_index :: "'a list \<Rightarrow> int \<Rightarrow> error + nat" where
  "py_index xs i =
     (if 0 \<le> i then (if i < int (length xs) then Inr (nat i) else Inl IndexError)
      else (if 0 \<le> int (length xs) + i then Inr (nat (int (length xs) + i))
            else Inl IndexError))"

definition getitem :: "'a list \<Rightarrow> int \<Rightarrow> error + 'a" where
  "getitem xs i = bind_err (py_index xs i) (\<lambda>j. Inr (xs ! j))"

definition setitem :: "'a list \<Rightarrow> int \<Rightarrow> 'a \<Rightarrow> error + 'a list" where
  "setitem xs i v = bind_err (py_index xs i) (\<lambda>j. Inr (xs[j := v]))"

text \<open>
  \<^verbatim>\<open>for i in xs: body\<close> over a state: the body runs on each element in order, and an
  exception in the body ends the loop with that exception.
\<close>

fun for_each :: "'i list \<Rightarrow> ('i \<Rightarrow> 's \<Rightarrow> error + 's) \<Rightarrow> 's \<Rightarrow> error + 's" where
  "for_each [] body s = Inr s"
| "for_each (i # rest) body s = bind_err (body i s) (for_each rest body)"

text \<open>\<^verbatim>\<open>range(n)\<close>: the integers from 0 up to \<open>n - 1\<close>, none when \<open>n \<le> 0\<close>.\<close>

definition range_py :: "int \<Rightarrow> int list" where
  "range_py n = map int [0..<nat n]"

section \<open>Game constants and data\<close>

text \<open>
  \<^verbatim>\<open>WIDTH\<close> and \<^verbatim>\<open>HEIGHT\<close> come from the display driver \<^verbatim>\<open>badger2040\<close>, which is
  not part of the program; the grid dimensions are functions of them, and every
  operation below takes the grid width \<open>gw\<close> and the grid height \<open>gh\<close> as
  parameters.
\<close>

definition UI_HEIGHT :: int where
  "UI_HEIGHT = 25"

definition CELL_SIZE :: int where
  "CELL_SIZE = 4"

definition GRID_WIDTH :: "int \<Rightarrow> int" where
  "GRID_WIDTH WIDTH = WIDTH div CELL_SIZE"

definition GRID_HEIGHT :: "int \<Rightarrow> int" where
  "GRID_HEIGHT HEIGHT = (HEIGHT - UI_HEIGHT) div CELL_SIZE"

text \<open>
  A grid is a list of rows, \<^verbatim>\<open>grid[y][x]\<close>; a cell is the integer 0 (dead) or 1
  (alive). Every row is a list object of its own and the two grids share no row, so a
  grid is a value. \<^verbatim>\<open>grid[y][x] = v\<close> reads the row \<^verbatim>\<open>grid[y]\<close> and assigns into that
  row object; on the grid value the updated row goes back to the index it was read
  from.
\<close>

type_synonym grid = "int list list"

definition grid_get :: "grid \<Rightarrow> int \<Rightarrow> int \<Rightarrow> error + int" where
  "grid_get g y x = bind_err (getitem g y) (\<lambda>row. getitem row x)"

definition grid_set :: "grid \<Rightarrow> int \<Rightarrow> int \<Rightarrow> int \<Rightarrow> error + grid" where
  "grid_set g y x v =
     bind_err (getitem g y) (\<lambda>row.
     bind_err (setitem row x v) (\<lambda>row'.
     setitem g y row'))"

text \<open>The dictionary \<^verbatim>\<open>state\<close>, with its three keys.\<close>

record game_state =
  paused :: bool
  pattern :: int
  generation :: int

text \<open>
  The globals the simulation reads and writes. \<^verbatim>\<open>random.random()\<close> is the library's
  generator: \<open>random_source\<close> is the sequence of the draws still to come, each the
  real number that the returned float stands for, and a call takes the first one. The
  display, the button pins and the clock are devices and are not part of the world.
\<close>

record world =
  current_grid :: grid
  next_grid :: grid
  state :: game_state
  random_source :: "nat \<Rightarrow> real"

definition random_random :: "(nat \<Rightarrow> real) \<Rightarrow> real \<times> (nat \<Rightarrow> real)" where
  "random_random src = (src 0, \<lambda>n. src (Suc n))"

record pattern_entry =
  name :: string
  cells :: "(int \<times> int) list"

definition patterns :: "pattern_entry list" where
  "patterns =
    [\<lparr>name = ''R-pentomino'',
      cells = [(1, 0), (2, 0), (0, 1), (1, 1), (1, 2)]\<rparr>,
     \<lparr>name = ''Acorn'',
      cells = [(1, 0), (3, 1), (0, 2), (1, 2), (4, 2), (5, 2), (6, 2)]\<rparr>,
     \<lparr>name = ''Diehard'',
      cells = [(6, 0), (0, 1), (1, 1), (1, 2), (5, 2), (6, 2), (7, 2)]\<rparr>,
     \<lparr>name = ''Glider Gun'',
      cells =
        [(0, 4), (0, 5), (1, 4), (1, 5),
         (10, 4), (10, 5), (10, 6), (11, 3), (11, 7), (12, 2), (12, 8),
         (13, 2), (13, 8), (14, 5), (15, 3), (15, 7), (16, 4), (16, 5), (16, 6),
         (17, 5),
         (20, 2), (20, 3), (20, 4), (21, 2), (21, 3), (21, 4), (22, 1), (22, 5),
         (24, 0), (24, 1), (24, 5), (24, 6),
         (34, 2), (34, 3), (35, 2), (35, 3)]\<rparr>,
     \<lparr>name = ''B-heptomino'',
      cells = [(1, 0), (2, 0), (0, 1), (1, 1), (1, 2), (2, 2), (3, 2)]\<rparr>,
     \<lparr>name = ''Spaceship'',
      cells = [(0, 1), (3, 1), (4, 2), (0, 3), (4, 3), (1, 4), (2, 4), (3, 4), (4, 4)]\<rparr>,
     \<lparr>name = ''10-cell row'',
      cells = [(0, 0), (1, 0), (2, 0), (3, 0), (4, 0), (5, 0), (6, 0), (7, 0), (8, 0),
               (9, 0)]\<rparr>,
     \<lparr>name = ''Pulsar'',
      cells =
        [(2, 0), (3, 0), (4, 0), (8, 0), (9, 0), (10, 0),
         (0, 2), (5, 2), (7, 2), (12, 2),
         (0, 3), (5, 3), (7, 3), (12, 3),
         (0, 4), (5, 4), (7, 4), (12, 4),
         (2, 5), (3, 5), (4, 5), (8, 5), (9, 5), (10, 5),
         (2, 7), (3, 7), (4, 7), (8, 7), (9, 7), (10, 7),
         (0, 8), (5, 8), (7, 8), (12, 8),
         (0, 9), (5, 9), (7, 9), (12, 9),
         (0, 10), (5, 10), (7, 10), (12, 10),
         (2, 12), (3, 12), (4, 12), (8, 12), (9, 12), (10, 12)]\<rparr>,
     \<lparr>name = ''Random'', cells = []\<rparr>]"

section \<open>The automaton\<close>

subsection \<open>\<^verbatim>\<open>clear_grid\<close>\<close>

definition clear_cell :: "int \<Rightarrow> int \<Rightarrow> world \<Rightarrow> error + world" where
  "clear_cell y x w =
     bind_err (grid_set (current_grid w) y x 0) (\<lambda>g. Inr (w\<lparr>current_grid := g\<rparr>))"

definition clear_grid :: "int \<Rightarrow> int \<Rightarrow> world \<Rightarrow> error + world" where
  "clear_grid gw gh w =
     for_each (range_py gh) (\<lambda>y. for_each (range_py gw) (\<lambda>x. clear_cell y x)) w"

subsection \<open>\<^verbatim>\<open>load_pattern\<close>\<close>

text \<open>
  The body of the random fill: the right-hand side draws first, then the cell is
  assigned.
\<close>

definition random_cell :: "int \<Rightarrow> int \<Rightarrow> world \<Rightarrow> error + world" where
  "random_cell y x w =
     (case random_random (random_source w) of (r, src) \<Rightarrow>
        bind_err (grid_set (current_grid w) y x (if r < 0.4 then 1 else 0))
          (\<lambda>g. Inr (w\<lparr>current_grid := g, random_source := src\<rparr>)))"

text \<open>The \<^verbatim>\<open>if\<close>/\<^verbatim>\<open>elif\<close> chain that chooses \<^verbatim>\<open>(offset_x, offset_y)\<close> from the name.\<close>

definition pattern_offset :: "int \<Rightarrow> int \<Rightarrow> string \<Rightarrow> int \<times> int" where
  "pattern_offset gw gh nm =
     (if nm = ''Glider Gun'' then (5, 2)
      else if nm = ''Pulsar'' then (gw div 2 - 6, gh div 2 - 6)
      else if nm = ''10-cell row'' then (gw div 2 - 5, gh div 3)
      else (gw div 2 - 3, gh div 2 - 3))"

text \<open>The body of the stamping loop \<^verbatim>\<open>for x, y in pattern["cells"]\<close>.\<close>

definition stamp_cell :: "int \<Rightarrow> int \<Rightarrow> int \<Rightarrow> int \<Rightarrow> int \<times> int \<Rightarrow> world \<Rightarrow> error + world" where
  "stamp_cell gw gh offset_x offset_y c w =
     (case c of (x, y) \<Rightarrow>
        (let grid_x = offset_x + x; grid_y = offset_y + y in
         if 0 \<le> grid_x \<and> grid_x < gw \<and> 0 \<le> grid_y \<and> grid_y < gh
         then bind_err (grid_set (current_grid w) grid_y grid_x 1)
                (\<lambda>g. Inr (w\<lparr>current_grid := g\<rparr>))
         else Inr w))"

definition load_pattern :: "int \<Rightarrow> int \<Rightarrow> int \<Rightarrow> world \<Rightarrow> error + world" where
  "load_pattern gw gh pattern_index w0 =
     bind_err (clear_grid gw gh w0) (\<lambda>w.
     bind_err (getitem patterns pattern_index) (\<lambda>p.
       if name p = ''Random''
       then for_each (range_py gh) (\<lambda>y. for_each (range_py gw) (\<lambda>x. random_cell y x)) w
       else (case pattern_offset gw gh (name p) of (offset_x, offset_y) \<Rightarrow>
               for_each (cells p) (stamp_cell gw gh offset_x offset_y) w)))"

subsection \<open>\<^verbatim>\<open>count_neighbors\<close>\<close>

definition neighbor_step :: "int \<Rightarrow> int \<Rightarrow> grid \<Rightarrow> int \<Rightarrow> int \<Rightarrow> int \<Rightarrow> int \<Rightarrow> int \<Rightarrow> error + int" where
  "neighbor_step gw gh g x y dy dx count =
     (if dx = 0 \<and> dy = 0 then Inr count
      else (let nx = x + dx; ny = y + dy in
            if 0 \<le> nx \<and> nx < gw \<and> 0 \<le> ny \<and> ny < gh
            then bind_err (grid_get g ny nx) (\<lambda>c. Inr (count + c))
            else Inr count))"

definition count_neighbors :: "int \<Rightarrow> int \<Rightarrow> world \<Rightarrow> int \<Rightarrow> int \<Rightarrow> error + int" where
  "count_neighbors gw gh w x y =
     for_each [-1, 0, 1] (\<lambda>dy.
       for_each [-1, 0, 1] (\<lambda>dx. neighbor_step gw gh (current_grid w) x y dy dx)) 0"

subsection \<open>\<^verbatim>\<open>update_game\<close>\<close>

definition write_next :: "int \<Rightarrow> int \<Rightarrow> int \<Rightarrow> world \<Rightarrow> error + world" where
  "write_next y x v w =
     bind_err (grid_set (next_grid w) y x v) (\<lambda>g. Inr (w\<lparr>next_grid := g\<rparr>))"

definition update_cell :: "int \<Rightarrow> int \<Rightarrow> int \<Rightarrow> int \<Rightarrow> world \<Rightarrow> error + world" where
  "update_cell gw gh y x w =
     bind_err (count_neighbors gw gh w x y) (\<lambda>neighbors.
     bind_err (grid_get (current_grid w) y x) (\<lambda>current_cell.
       if current_cell = 1
       then (if neighbors < 2 \<or> neighbors > 3 then write_next y x 0 w
             else write_next y x 1 w)
       else (if neighbors = 3 then write_next y x 1 w
             else write_next y x 0 w)))"

definition update_game :: "int \<Rightarrow> int \<Rightarrow> world \<Rightarrow> error + world" where
  "update_game gw gh w =
     bind_err (for_each (range_py gh) (\<lambda>y. for_each (range_py gw) (\<lambda>x. update_cell gw gh y x)) w)
       (\<lambda>w'. Inr (w'\<lparr>current_grid := next_grid w', next_grid := current_grid w',
                     state := (state w')\<lparr>generation := generation (state w') + 1\<rparr>\<rparr>))"

subsection \<open>The program around the automaton\<close>

text \<open>
  The module-level initial values: \<^verbatim>\<open>state\<close> and the two grids, each built by the
  comprehension \<^verbatim>\<open>[[0 for _ in range(GRID_WIDTH)] for _ in range(GRID_HEIGHT)]\<close>.
\<close>

definition initial_state :: game_state where
  "initial_state = \<lparr>paused = True, pattern = 0, generation = 0\<rparr>"

definition initial_grid :: "int \<Rightarrow> int \<Rightarrow> grid" where
  "initial_grid gw gh = map (\<lambda>_. map (\<lambda>_. 0) (range_py gw)) (range_py gh)"

definition initial_world :: "int \<Rightarrow> int \<Rightarrow> (nat \<Rightarrow> real) \<Rightarrow> world" where
  "initial_world gw gh src =
     \<lparr>current_grid = initial_grid gw gh, next_grid = initial_grid gw gh,
      state = initial_state, random_source = src\<rparr>"

text \<open>
  Modelled from the spec: \<^verbatim>\<open>badger_os.state_load\<close> is not among the sources. The spec's
  persistence paragraph says that the application serializes the paused flag, the
  pattern index and the generation counter to durable storage and restores them at
  startup: \<open>saved\<close> is what the storage holds, if anything, and the values of
  \<open>state\<close> remain when it holds nothing.
\<close>

definition state_load :: "game_state option \<Rightarrow> game_state \<Rightarrow> game_state" where
  "state_load saved defaults = (case saved of None \<Rightarrow> defaults | Some s \<Rightarrow> s)"

text \<open>
  The module-level statements between \<^verbatim>\<open># Load saved state\<close> and the main loop:
  restore the state, put an index beyond the list back to 0, load the pattern.
\<close>

definition startup :: "int \<Rightarrow> int \<Rightarrow> game_state option \<Rightarrow> world \<Rightarrow> error + world" where
  "startup gw gh saved w0 =
     (let w1 = w0\<lparr>state := state_load saved (state w0)\<rparr>;
          w2 = (if pattern (state w1) \<ge> int (length patterns)
                then w1\<lparr>state := (state w1)\<lparr>pattern := 0\<rparr>\<rparr> else w1)
      in load_pattern gw gh (pattern (state w2)) w2)"

text \<open>
  One pass through \<^verbatim>\<open>if button_pressed:\<close> in the main loop, for the button that was
  pressed. Drawing on the display and saving the state to storage write to the
  device only and are left out.
\<close>

datatype button = Button_A | Button_B | Button_C | Button_Up | Button_Down

fun handle_button :: "int \<Rightarrow> int \<Rightarrow> button \<Rightarrow> world \<Rightarrow> error + world" where
  "handle_button gw gh Button_A w =
     (let w1 = w\<lparr>state := (state w)\<lparr>pattern := (pattern (state w) - 1) mod int (length patterns)\<rparr>\<rparr>;
          w2 = w1\<lparr>state := (state w1)\<lparr>generation := 0\<rparr>\<rparr>
      in load_pattern gw gh (pattern (state w2)) w2)"
| "handle_button gw gh Button_B w =
     Inr (w\<lparr>state := (state w)\<lparr>paused := \<not> paused (state w)\<rparr>\<rparr>)"
| "handle_button gw gh Button_C w =
     (let w1 = w\<lparr>state := (state w)\<lparr>pattern := (pattern (state w) + 1) mod int (length patterns)\<rparr>\<rparr>;
          w2 = w1\<lparr>state := (state w1)\<lparr>generation := 0\<rparr>\<rparr>
      in load_pattern gw gh (pattern (state w2)) w2)"
| "handle_button gw gh Button_Up w =
     (if paused (state w) then update_game gw gh w else Inr w)"
| "handle_button gw gh Button_Down w =
     (let w1 = w\<lparr>state := (state w)\<lparr>generation := 0\<rparr>\<rparr>
      in load_pattern gw gh (pattern (state w1)) w1)"

section \<open>Specification vocabulary\<close>

text \<open>
  A coordinate is in bounds when it lies in \<open>[0, gw) \<times> [0, gh)\<close>. A grid has the
  shape \<open>gw \<times> gh\<close> when it has \<open>gh\<close> rows of \<open>gw\<close> cells, and it is binary when every
  cell is 0 or 1. \<open>cell\<close> reads and \<open>put\<close> writes a cell of a grid value.
\<close>

definition in_grid :: "int \<Rightarrow> int \<Rightarrow> int \<Rightarrow> int \<Rightarrow> bool" where
  "in_grid gw gh x y \<longleftrightarrow> 0 \<le> x \<and> x < gw \<and> 0 \<le> y \<and> y < gh"

definition cell :: "grid \<Rightarrow> int \<Rightarrow> int \<Rightarrow> int" where
  "cell g x y = g ! nat y ! nat x"

definition put :: "grid \<Rightarrow> int \<Rightarrow> int \<Rightarrow> int \<Rightarrow> grid" where
  "put g x y v = g[nat y := (g ! nat y)[nat x := v]]"

definition grid_shape :: "int \<Rightarrow> int \<Rightarrow> grid \<Rightarrow> bool" where
  "grid_shape gw gh g \<longleftrightarrow> length g = nat gh \<and> (\<forall>row \<in> set g. length row = nat gw)"

definition binary_grid :: "grid \<Rightarrow> bool" where
  "binary_grid g \<longleftrightarrow> (\<forall>row \<in> set g. \<forall>c \<in> set row. c = 0 \<or> c = 1)"

text \<open>
  A position is alive when it is in bounds and its cell is 1, so that a position
  outside the grid is never alive. The Moore neighbourhood of \<open>(x, y)\<close> is the 3 by 3
  square around it without \<open>(x, y)\<close> itself.
\<close>

definition alive :: "int \<Rightarrow> int \<Rightarrow> grid \<Rightarrow> int \<times> int \<Rightarrow> bool" where
  "alive gw gh g p \<longleftrightarrow> in_grid gw gh (fst p) (snd p) \<and> cell g (fst p) (snd p) = 1"

definition moore :: "int \<Rightarrow> int \<Rightarrow> (int \<times> int) set" where
  "moore x y = ({x - 1..x + 1} \<times> {y - 1..y + 1}) - {(x, y)}"

definition live_neighbors :: "int \<Rightarrow> int \<Rightarrow> grid \<Rightarrow> int \<Rightarrow> int \<Rightarrow> nat" where
  "live_neighbors gw gh g x y = card {p \<in> moore x y. alive gw gh g p}"

text \<open>The eight positions in the order in which \<^verbatim>\<open>count_neighbors\<close> visits them.\<close>

definition around :: "int \<Rightarrow> int \<Rightarrow> (int \<times> int) list" where
  "around x y =
     [(x - 1, y - 1), (x, y - 1), (x + 1, y - 1),
      (x - 1, y), (x + 1, y),
      (x - 1, y + 1), (x, y + 1), (x + 1, y + 1)]"

definition probe :: "int \<Rightarrow> int \<Rightarrow> grid \<Rightarrow> int \<times> int \<Rightarrow> int" where
  "probe gw gh g p = (if in_grid gw gh (fst p) (snd p) then cell g (fst p) (snd p) else 0)"

text \<open>The transition rule on a cell and its number of live neighbours.\<close>

definition rule :: "int \<Rightarrow> nat \<Rightarrow> int" where
  "rule c n = (if c = 1 then (if n < 2 \<or> 3 < n then 0 else 1) else (if n = 3 then 1 else 0))"

definition evolve :: "int \<Rightarrow> int \<Rightarrow> grid \<Rightarrow> int \<Rightarrow> int \<Rightarrow> int" where
  "evolve gw gh g x y = rule (cell g x y) (live_neighbors gw gh g x y)"

definition next_generation :: "int \<Rightarrow> int \<Rightarrow> grid \<Rightarrow> grid" where
  "next_generation gw gh g =
     map (\<lambda>y. map (\<lambda>x. evolve gw gh g x y) (range_py gw)) (range_py gh)"

text \<open>
  A loop that assigns \<open>f x y\<close> to every cell, row after row, has after \<open>n\<close> assignments
  a grid that agrees with \<open>f\<close> on the first \<open>n\<close> cells and with the grid it started
  from on the others.
\<close>

definition painted :: "int \<Rightarrow> int \<Rightarrow> (int \<Rightarrow> int \<Rightarrow> int) \<Rightarrow> grid \<Rightarrow> nat \<Rightarrow> grid \<Rightarrow> bool" where
  "painted gw gh f g0 n g \<longleftrightarrow>
     grid_shape gw gh g \<and>
     (\<forall>x y. in_grid gw gh x y \<longrightarrow>
        cell g x y = (if nat y * nat gw + nat x < n then f x y else cell g0 x y))"

text \<open>The positions a list of pattern cells occupies when placed at an offset.\<close>

definition placed :: "int \<Rightarrow> int \<Rightarrow> (int \<times> int) list \<Rightarrow> (int \<times> int) set" where
  "placed offset_x offset_y cs = (\<lambda>(x, y). (offset_x + x, offset_y + y)) ` set cs"

text \<open>
  The position of a cell in the row-major order of the fill loops, and the cells a
  pattern stamps: for the random fill the cells whose draw is below 0.4, for a named
  pattern the cells of the pattern placed at its offset.
\<close>

definition draw_index :: "int \<Rightarrow> int \<Rightarrow> int \<Rightarrow> nat" where
  "draw_index gw x y = nat y * nat gw + nat x"

definition stamped :: "int \<Rightarrow> int \<Rightarrow> (nat \<Rightarrow> real) \<Rightarrow> pattern_entry \<Rightarrow> int \<Rightarrow> int \<Rightarrow> bool" where
  "stamped gw gh src p x y =
     (if name p = ''Random'' then src (draw_index gw x y) < 0.4
      else (case pattern_offset gw gh (name p) of
              (offset_x, offset_y) \<Rightarrow> (x, y) \<in> placed offset_x offset_y (cells p)))"

text \<open>The two phases of the blinker on a 5 by 5 board.\<close>

definition blinker_h :: grid where
  "blinker_h =
     [[0, 0, 0, 0, 0],
      [0, 0, 0, 0, 0],
      [0, 1, 1, 1, 0],
      [0, 0, 0, 0, 0],
      [0, 0, 0, 0, 0]]"

definition blinker_v :: grid where
  "blinker_v =
     [[0, 0, 0, 0, 0],
      [0, 0, 1, 0, 0],
      [0, 0, 1, 0, 0],
      [0, 0, 1, 0, 0],
      [0, 0, 0, 0, 0]]"

text \<open>A paused program whose current grid holds the horizontal blinker.\<close>

definition blinker_world :: world where
  "blinker_world = (initial_world 5 5 (\<lambda>_. 0))\<lparr>current_grid := blinker_h\<rparr>"

text \<open>
  A pattern is placed at an offset on a grid when the alive in-bounds cells are
  exactly the in-bounds positions its cells occupy from that offset.
\<close>

definition placed_at :: "int \<Rightarrow> int \<Rightarrow> grid \<Rightarrow> (int \<times> int) list \<Rightarrow> int \<Rightarrow> int \<Rightarrow> bool" where
  "placed_at gw gh g cs offset_x offset_y \<longleftrightarrow>
     (\<forall>x y. in_grid gw gh x y \<longrightarrow> (cell g x y = 1 \<longleftrightarrow> (x, y) \<in> placed offset_x offset_y cs))"

text \<open>
  Inputs for the examples: a sequence of draws that alternates between 0.1 and 0.9, a
  state as an earlier run leaves it in storage after 57 generations of the first
  pattern, and a program whose selected pattern is the last of the list.
\<close>

definition alternating :: "nat \<Rightarrow> real" where
  "alternating n = (if even n then 1 / 10 else 9 / 10)"

definition stale_state :: game_state where
  "stale_state = \<lparr>paused = True, pattern = 0, generation = 57\<rparr>"

definition last_pattern_world :: world where
  "last_pattern_world = (initial_world 5 5 alternating)\<lparr>state := initial_state\<lparr>pattern := 8\<rparr>\<rparr>"

text \<open>Two worlds with the same simulation state and the same second buffer.\<close>

definition same_frame :: "world \<Rightarrow> world \<Rightarrow> bool" where
  "same_frame w w' \<longleftrightarrow> state w' = state w \<and> next_grid w' = next_grid w"

section \<open>Indexing and loops\<close>

lemma bind_err_Inr [simp]: "bind_err (Inr v) f = f v"
  by (simp add: bind_err_def)

lemma bind_err_Inl [simp]: "bind_err (Inl e) f = Inl e"
  by (simp add: bind_err_def)

lemma py_index_in: "0 \<le> i \<Longrightarrow> i < int (length xs) \<Longrightarrow> py_index xs i = Inr (nat i)"
  by (simp add: py_index_def)

lemma getitem_in: "0 \<le> i \<Longrightarrow> i < int (length xs) \<Longrightarrow> getitem xs i = Inr (xs ! nat i)"
  by (simp add: getitem_def py_index_in)

lemma setitem_in: "0 \<le> i \<Longrightarrow> i < int (length xs) \<Longrightarrow> setitem xs i v = Inr (xs[nat i := v])"
  by (simp add: setitem_def py_index_in)

lemma shape_row: "grid_shape gw gh g \<Longrightarrow> in_grid gw gh x y \<Longrightarrow> length (g ! nat y) = nat gw"
  by (simp add: grid_shape_def in_grid_def)

lemma grid_get_in:
  "grid_shape gw gh g \<Longrightarrow> in_grid gw gh x y \<Longrightarrow> grid_get g y x = Inr (cell g x y)"
  by (simp add: grid_get_def cell_def getitem_in grid_shape_def in_grid_def)

lemma grid_set_in:
  "grid_shape gw gh g \<Longrightarrow> in_grid gw gh x y \<Longrightarrow> grid_set g y x v = Inr (put g x y v)"
  by (simp add: grid_set_def put_def getitem_in setitem_in grid_shape_def in_grid_def)

lemma shape_put: "grid_shape gw gh g \<Longrightarrow> in_grid gw gh x y \<Longrightarrow> grid_shape gw gh (put g x y v)"
  unfolding grid_shape_def put_def in_grid_def
  by (auto dest!: subsetD [OF set_update_subset_insert])

lemma cell_put:
  "grid_shape gw gh g \<Longrightarrow> in_grid gw gh x y \<Longrightarrow> in_grid gw gh x' y' \<Longrightarrow>
   cell (put g x y v) x' y' = (if x' = x \<and> y' = y then v else cell g x' y')"
  unfolding grid_shape_def put_def in_grid_def cell_def
  by (auto simp: nth_list_update)

lemma for_each_append:
  "for_each (xs @ ys) body s = bind_err (for_each xs body s) (for_each ys body)"
proof (induction xs arbitrary: s)
  case Nil
  show ?case by simp
next
  case (Cons i xs)
  show ?case by (cases "body i s") (simp_all add: Cons.IH)
qed

lemma range_py_Suc: "range_py (int (Suc n)) = range_py (int n) @ [int n]"
  unfolding range_py_def nat_int by simp

lemma for_range_rule:
  assumes init: "I 0 s"
    and step: "\<And>k t. k < n \<Longrightarrow> I k t \<Longrightarrow> \<exists>t'. body (int k) t = Inr t' \<and> I (Suc k) t'"
  shows "\<exists>s'. for_each (range_py (int n)) body s = Inr s' \<and> I n s'"
  using step
proof (induction n)
  case 0
  show ?case using init by (simp add: range_py_def)
next
  case (Suc n)
  have "\<exists>s'. for_each (range_py (int n)) body s = Inr s' \<and> I n s'"
    using Suc.prems by (intro Suc.IH) auto
  then obtain t where t: "for_each (range_py (int n)) body s = Inr t" "I n t"
    by blast
  from Suc.prems [of n t] t obtain t' where "body (int n) t = Inr t'" "I (Suc n) t'"
    by auto
  with t show ?case
    by (simp add: range_py_Suc for_each_append del: of_nat_Suc)
qed

lemma for_grid_rule:
  assumes init: "I 0 s"
    and step: "\<And>x y t. x < w \<Longrightarrow> y < h \<Longrightarrow> I (y * w + x) t \<Longrightarrow>
                 \<exists>t'. body (int y) (int x) t = Inr t' \<and> I (Suc (y * w + x)) t'"
  shows "\<exists>s'. for_each (range_py (int h)) (\<lambda>y. for_each (range_py (int w)) (body y)) s = Inr s'
              \<and> I (h * w) s'"
proof (rule for_range_rule [where I = "\<lambda>y. I (y * w)"])
  show "I (0 * w) s" using init by simp
next
  fix y t assume y: "y < h" and t: "I (y * w) t"
  have "\<exists>t'. for_each (range_py (int w)) (body (int y)) t = Inr t' \<and> I (y * w + w) t'"
  proof (rule for_range_rule [where I = "\<lambda>x. I (y * w + x)"])
    show "I (y * w + 0) t" using t by simp
  next
    fix x u assume "x < w" "I (y * w + x) u"
    then show "\<exists>t'. body (int y) (int x) u = Inr t' \<and> I (y * w + Suc x) t'"
      using step [of x y u] y by simp
  qed
  then show "\<exists>t'. for_each (range_py (int w)) (body (int y)) t = Inr t' \<and> I (Suc y * w) t'"
    by (simp add: add.commute)
qed

section \<open>Counting neighbours\<close>

lemma neighbor_step_eq:
  assumes "grid_shape gw gh g"
  shows "neighbor_step gw gh g x y dy dx count =
         Inr (count + (if dx = 0 \<and> dy = 0 then 0 else probe gw gh g (x + dx, y + dy)))"
proof (cases "in_grid gw gh (x + dx) (y + dy)")
  case True
  then show ?thesis
    using grid_get_in [OF assms True]
    by (simp add: neighbor_step_def probe_def Let_def in_grid_def)
next
  case False
  then show ?thesis
    by (auto simp add: neighbor_step_def probe_def Let_def in_grid_def)
qed

lemma count_neighbors_sum:
  assumes "grid_shape gw gh (current_grid w)"
  shows "count_neighbors gw gh w x y = Inr (sum_list (map (probe gw gh (current_grid w)) (around x y)))"
  by (simp add: count_neighbors_def neighbor_step_eq [OF assms] around_def)

lemma int_interval3: "{a - 1..a + 1} = {a - 1, a, a + (1::int)}"
  by auto

lemma moore_around: "moore x y = set (around x y)"
  unfolding moore_def around_def int_interval3 by auto

lemma distinct_around: "distinct (around x y)"
  by (simp add: around_def)

lemma cell_binary:
  "grid_shape gw gh g \<Longrightarrow> binary_grid g \<Longrightarrow> in_grid gw gh x y \<Longrightarrow> cell g x y = 0 \<or> cell g x y = 1"
proof -
  assume shape: "grid_shape gw gh g" and bin: "binary_grid g" and inb: "in_grid gw gh x y"
  have y: "nat y < length g"
    using shape inb by (simp add: grid_shape_def in_grid_def)
  then have row: "g ! nat y \<in> set g"
    by (rule nth_mem)
  have "nat x < length (g ! nat y)"
    using shape_row [OF shape inb] inb by (simp add: in_grid_def)
  then have "g ! nat y ! nat x \<in> set (g ! nat y)"
    by (rule nth_mem)
  with row bin show ?thesis
    unfolding binary_grid_def cell_def by blast
qed

lemma probe_alive:
  assumes "grid_shape gw gh g" "binary_grid g"
  shows "probe gw gh g p = (if alive gw gh g p then 1 else 0)"
  using cell_binary [OF assms, of "fst p" "snd p"]
  by (auto simp: probe_def alive_def)

lemma sum_list_indicator:
  "sum_list (map (\<lambda>p. if P p then 1 else 0) ps) = int (length (filter P ps))"
  by (induction ps) simp_all

lemma live_neighbors_filter:
  "live_neighbors gw gh g x y = length (filter (alive gw gh g) (around x y))"
proof -
  have "{p \<in> moore x y. alive gw gh g p} = set (filter (alive gw gh g) (around x y))"
    by (auto simp: moore_around)
  then show ?thesis
    by (simp add: live_neighbors_def distinct_card distinct_around del: set_filter)
qed

lemma live_neighbors_le: "live_neighbors gw gh g x y \<le> 8"
proof -
  have "length (filter (alive gw gh g) (around x y)) \<le> length (around x y)"
    by (rule length_filter_le)
  then show ?thesis
    by (simp add: live_neighbors_filter around_def)
qed

lemma count_neighbors_live:
  assumes "grid_shape gw gh (current_grid w)" "binary_grid (current_grid w)"
  shows "count_neighbors gw gh w x y = Inr (int (live_neighbors gw gh (current_grid w) x y))"
proof -
  have "map (probe gw gh (current_grid w)) (around x y) =
        map (\<lambda>p. if alive gw gh (current_grid w) p then 1 else 0) (around x y)"
    by (simp add: probe_alive [OF assms])
  then show ?thesis
    by (simp only: count_neighbors_sum [OF assms(1)] sum_list_indicator live_neighbors_filter)
qed

section \<open>Loops over the whole grid\<close>

lemma range_py_nat: "range_py (int (nat n)) = range_py n"
  by (simp add: range_py_def)

lemma idx_inj:
  fixes x y x' y' w :: nat
  assumes "x < w" "x' < w" "y * w + x = y' * w + x'"
  shows "x = x' \<and> y = y'"
proof -
  have "(y * w + x) div w = y" "(y * w + x) mod w = x"
    using assms(1) by simp_all
  moreover have "(y' * w + x') div w = y'" "(y' * w + x') mod w = x'"
    using assms(2) by simp_all
  ultimately show ?thesis
    using assms(3) by metis
qed

lemma idx_bound:
  fixes x y w h :: nat
  assumes "x < w" "y < h"
  shows "y * w + x < h * w"
proof -
  have "y * w + x < Suc y * w" using assms(1) by simp
  also have "\<dots> \<le> h * w" using assms(2) by (intro mult_le_mono1) simp
  finally show ?thesis .
qed

lemma idx_step:
  fixes x y x' y' w :: nat
  assumes "x < w" "x' < w"
  shows "y' * w + x' < Suc (y * w + x) \<longleftrightarrow> (x' = x \<and> y' = y) \<or> y' * w + x' < y * w + x"
  using idx_inj [OF assms(2) assms(1), of y' y] by auto

lemma in_grid_nat: "x < nat gw \<Longrightarrow> y < nat gh \<Longrightarrow> in_grid gw gh (int x) (int y)"
  unfolding in_grid_def by linarith

lemma painted_init: "grid_shape gw gh g0 \<Longrightarrow> painted gw gh f g0 0 g0"
  by (simp add: painted_def)

lemma painted_step:
  assumes x: "x < nat gw" and y: "y < nat gh"
    and inv: "painted gw gh f g0 (y * nat gw + x) g"
    and v: "v = f (int x) (int y)"
  shows "painted gw gh f g0 (Suc (y * nat gw + x)) (put g (int x) (int y) v)"
  unfolding painted_def
proof (intro conjI allI impI)
  have inb: "in_grid gw gh (int x) (int y)"
    using x y by (rule in_grid_nat)
  have shape: "grid_shape gw gh g"
    using inv by (simp add: painted_def)
  show "grid_shape gw gh (put g (int x) (int y) v)"
    using shape inb by (rule shape_put)
  fix x' y' assume inb': "in_grid gw gh x' y'"
  have x': "nat x' < nat gw" and nn: "0 \<le> x'" "0 \<le> y'"
    using inb' by (simp_all add: in_grid_def)
  have same: "(x' = int x \<and> y' = int y) \<longleftrightarrow> (nat x' = x \<and> nat y' = y)"
    using nn by auto
  have old: "cell g x' y' = (if nat y' * nat gw + nat x' < y * nat gw + x then f x' y' else cell g0 x' y')"
    using inv inb' by (simp add: painted_def)
  show "cell (put g (int x) (int y) v) x' y' =
        (if nat y' * nat gw + nat x' < Suc (y * nat gw + x) then f x' y' else cell g0 x' y')"
    using cell_put [OF shape inb inb'] old idx_step [OF x x', of "nat y'" y] same v
    by auto
qed

lemma painted_full:
  assumes "painted gw gh f g0 (nat gh * nat gw) g"
  shows "grid_shape gw gh g \<and> (\<forall>x y. in_grid gw gh x y \<longrightarrow> cell g x y = f x y)"
proof -
  have "\<And>x y. in_grid gw gh x y \<Longrightarrow> nat y * nat gw + nat x < nat gh * nat gw"
    by (rule idx_bound) (simp_all add: in_grid_def)
  then show ?thesis
    using assms by (simp add: painted_def)
qed

lemma grid_eqI:
  assumes g: "grid_shape gw gh g" and g': "grid_shape gw gh g'"
    and eq: "\<And>x y. in_grid gw gh x y \<Longrightarrow> cell g x y = cell g' x y"
  shows "g = g'"
proof (rule nth_equalityI)
  show len: "length g = length g'"
    using g g' by (simp add: grid_shape_def)
  fix j assume j: "j < length g"
  then have jh: "j < nat gh"
    using g by (simp add: grid_shape_def)
  have rows: "length (g ! j) = nat gw" "length (g' ! j) = nat gw"
    using g g' j len by (simp_all add: grid_shape_def)
  show "g ! j = g' ! j"
  proof (rule nth_equalityI)
    show "length (g ! j) = length (g' ! j)"
      using rows by simp
    fix i assume "i < length (g ! j)"
    then have "in_grid gw gh (int i) (int j)"
      using rows jh by (intro in_grid_nat) simp_all
    from eq [OF this] show "g ! j ! i = g' ! j ! i"
      by (simp add: cell_def)
  qed
qed

lemma shape_initial_grid: "grid_shape gw gh (initial_grid gw gh)"
  by (auto simp add: grid_shape_def initial_grid_def range_py_def)

lemma cell_initial_grid: "in_grid gw gh x y \<Longrightarrow> cell (initial_grid gw gh) x y = 0"
  by (simp add: cell_def initial_grid_def in_grid_def range_py_def)

lemma update_cell_eq:
  assumes cur: "grid_shape gw gh (current_grid w)" "binary_grid (current_grid w)"
    and nxt: "grid_shape gw gh (next_grid w)"
    and inb: "in_grid gw gh x y"
  shows "update_cell gw gh y x w =
         Inr (w\<lparr>next_grid := put (next_grid w) x y (evolve gw gh (current_grid w) x y)\<rparr>)"
  by (simp add: update_cell_def count_neighbors_live [OF cur] grid_get_in [OF cur(1) inb]
      write_next_def grid_set_in [OF nxt inb] evolve_def rule_def)

lemma update_loop:
  assumes cur: "grid_shape gw gh (current_grid w)" "binary_grid (current_grid w)"
    and nxt: "grid_shape gw gh (next_grid w)"
  shows "\<exists>g. for_each (range_py gh) (\<lambda>y. for_each (range_py gw) (\<lambda>x. update_cell gw gh y x)) w
              = Inr (w\<lparr>next_grid := g\<rparr>)
             \<and> grid_shape gw gh g
             \<and> (\<forall>x y. in_grid gw gh x y \<longrightarrow> cell g x y = evolve gw gh (current_grid w) x y)"
proof -
  define I where "I = (\<lambda>n t. \<exists>g. t = w\<lparr>next_grid := g\<rparr> \<and>
                                  painted gw gh (evolve gw gh (current_grid w)) (next_grid w) n g)"
  have init: "I 0 w"
    unfolding I_def using painted_init [OF nxt] by (intro exI [of _ "next_grid w"]) simp
  have step: "\<exists>t'. update_cell gw gh (int y) (int x) t = Inr t' \<and> I (Suc (y * nat gw + x)) t'"
    if x: "x < nat gw" and y: "y < nat gh" and inv: "I (y * nat gw + x) t" for x y t
  proof -
    from inv obtain g where t: "t = w\<lparr>next_grid := g\<rparr>"
      and p: "painted gw gh (evolve gw gh (current_grid w)) (next_grid w) (y * nat gw + x) g"
      unfolding I_def by blast
    have g: "grid_shape gw gh g"
      using p by (simp add: painted_def)
    have "update_cell gw gh (int y) (int x) t =
          Inr (w\<lparr>next_grid := put g (int x) (int y) (evolve gw gh (current_grid w) (int x) (int y))\<rparr>)"
      using update_cell_eq [of gw gh t "int x" "int y"] cur g in_grid_nat [OF x y]
      by (simp add: t)
    moreover have "I (Suc (y * nat gw + x))
          (w\<lparr>next_grid := put g (int x) (int y) (evolve gw gh (current_grid w) (int x) (int y))\<rparr>)"
      unfolding I_def using painted_step [OF x y p refl] by blast
    ultimately show ?thesis by blast
  qed
  have "\<exists>t. for_each (range_py (int (nat gh)))
              (\<lambda>y. for_each (range_py (int (nat gw))) (update_cell gw gh y)) w = Inr t
             \<and> I (nat gh * nat gw) t"
    using init step by (rule for_grid_rule)
  then show ?thesis
    unfolding I_def range_py_nat using painted_full by blast
qed

lemma update_game_cells:
  assumes cur: "grid_shape gw gh (current_grid w)" "binary_grid (current_grid w)"
    and nxt: "grid_shape gw gh (next_grid w)"
  shows "\<exists>g. update_game gw gh w =
                Inr (w\<lparr>current_grid := g, next_grid := current_grid w,
                       state := (state w)\<lparr>generation := generation (state w) + 1\<rparr>\<rparr>) \<and>
              grid_shape gw gh g \<and>
              (\<forall>x y. in_grid gw gh x y \<longrightarrow> cell g x y = evolve gw gh (current_grid w) x y)"
proof -
  from update_loop [OF assms] obtain g where
    run: "for_each (range_py gh) (\<lambda>y. for_each (range_py gw) (\<lambda>x. update_cell gw gh y x)) w
          = Inr (w\<lparr>next_grid := g\<rparr>)"
    and g: "grid_shape gw gh g"
       "\<forall>x y. in_grid gw gh x y \<longrightarrow> cell g x y = evolve gw gh (current_grid w) x y"
    by blast
  have "update_game gw gh w =
        Inr (w\<lparr>current_grid := g, next_grid := current_grid w,
               state := (state w)\<lparr>generation := generation (state w) + 1\<rparr>\<rparr>)"
    by (simp add: update_game_def run)
  with g show ?thesis by blast
qed

section \<open>One generation as a function of the grid\<close>

lemma rule_binary: "rule c n = 0 \<or> rule c n = 1"
  by (simp add: rule_def)

lemma binary_gridI:
  assumes shape: "grid_shape gw gh g"
    and bin: "\<And>x y. in_grid gw gh x y \<Longrightarrow> cell g x y = 0 \<or> cell g x y = 1"
  shows "binary_grid g"
  unfolding binary_grid_def
proof (intro ballI)
  fix row c assume row: "row \<in> set g" and c: "c \<in> set row"
  from row obtain j where j: "j < length g" "row = g ! j"
    by (auto simp: in_set_conv_nth)
  from c obtain i where i: "i < length row" "c = row ! i"
    by (auto simp: in_set_conv_nth)
  have "length row = nat gw" "length g = nat gh"
    using shape row by (simp_all add: grid_shape_def)
  then have "in_grid gw gh (int i) (int j)"
    using i j by (intro in_grid_nat) simp_all
  from bin [OF this] show "c = 0 \<or> c = 1"
    using i j by (simp add: cell_def)
qed

lemma shape_next_generation: "grid_shape gw gh (next_generation gw gh g)"
  by (auto simp add: grid_shape_def next_generation_def range_py_def)

lemma cell_next_generation:
  "in_grid gw gh x y \<Longrightarrow> cell (next_generation gw gh g) x y = evolve gw gh g x y"
  by (simp add: cell_def next_generation_def in_grid_def range_py_def)

lemma update_game_next_generation:
  assumes cur: "grid_shape gw gh (current_grid w)" "binary_grid (current_grid w)"
    and nxt: "grid_shape gw gh (next_grid w)"
  shows "update_game gw gh w =
           Inr (w\<lparr>current_grid := next_generation gw gh (current_grid w),
                  next_grid := current_grid w,
                  state := (state w)\<lparr>generation := generation (state w) + 1\<rparr>\<rparr>)"
proof -
  from update_game_cells [OF assms] obtain g where
    run: "update_game gw gh w =
            Inr (w\<lparr>current_grid := g, next_grid := current_grid w,
                   state := (state w)\<lparr>generation := generation (state w) + 1\<rparr>\<rparr>)"
    and g: "grid_shape gw gh g"
      "\<forall>x y. in_grid gw gh x y \<longrightarrow> cell g x y = evolve gw gh (current_grid w) x y"
    by blast
  have "g = next_generation gw gh (current_grid w)"
    using g(1) shape_next_generation
    by (rule grid_eqI) (simp add: g(2) cell_next_generation)
  with run show ?thesis by simp
qed

lemma live_blinker_c: "live_neighbors 5 5 blinker_h 2 2 = 2"
  by (simp add: live_neighbors_filter around_def alive_def in_grid_def cell_def blinker_h_def)

lemma shape_blinker_h: "grid_shape 5 5 blinker_h"
  by (simp add: grid_shape_def blinker_h_def)

lemma binary_blinker_h: "binary_grid blinker_h"
  by (simp add: binary_grid_def blinker_h_def)

lemma shape_blinker_v: "grid_shape 5 5 blinker_v"
  by (simp add: grid_shape_def blinker_v_def)

lemma binary_blinker_v: "binary_grid blinker_v"
  by (simp add: binary_grid_def blinker_v_def)

lemmas eval_grid = next_generation_def evolve_def rule_def live_neighbors_filter around_def
  alive_def in_grid_def cell_def range_py_def

lemma upt5: "[0..<5] = [0, 1, 2, 3, 4]"
  by (simp add: upt_rec)

lemma next_blinker_h: "next_generation 5 5 blinker_h = blinker_v"
  by (simp add: eval_grid upt5 blinker_h_def blinker_v_def)

lemma next_blinker_v: "next_generation 5 5 blinker_v = blinker_h"
  by (simp add: eval_grid upt5 blinker_h_def blinker_v_def)

section \<open>Clearing, filling and stamping\<close>

lemma clear_cell_eq:
  assumes "grid_shape gw gh (current_grid w)" "in_grid gw gh x y"
  shows "clear_cell y x w = Inr (w\<lparr>current_grid := put (current_grid w) x y 0\<rparr>)"
  by (simp add: clear_cell_def grid_set_in [OF assms])

lemma clear_grid_eq:
  assumes cur: "grid_shape gw gh (current_grid w)"
  shows "clear_grid gw gh w = Inr (w\<lparr>current_grid := initial_grid gw gh\<rparr>)"
proof -
  define I where "I = (\<lambda>n t. \<exists>g. t = w\<lparr>current_grid := g\<rparr> \<and>
                                  painted gw gh (\<lambda>_ _. 0) (current_grid w) n g)"
  have init: "I 0 w"
    unfolding I_def using painted_init [OF cur] by (intro exI [of _ "current_grid w"]) simp
  have step: "\<exists>t'. clear_cell (int y) (int x) t = Inr t' \<and> I (Suc (y * nat gw + x)) t'"
    if x: "x < nat gw" and y: "y < nat gh" and inv: "I (y * nat gw + x) t" for x y t
  proof -
    from inv obtain g where t: "t = w\<lparr>current_grid := g\<rparr>"
      and p: "painted gw gh (\<lambda>_ _. 0) (current_grid w) (y * nat gw + x) g"
      unfolding I_def by blast
    have g: "grid_shape gw gh g"
      using p by (simp add: painted_def)
    have "clear_cell (int y) (int x) t = Inr (w\<lparr>current_grid := put g (int x) (int y) 0\<rparr>)"
      using clear_cell_eq [of gw gh t "int x" "int y"] g in_grid_nat [OF x y]
      by (simp add: t)
    moreover have "I (Suc (y * nat gw + x)) (w\<lparr>current_grid := put g (int x) (int y) 0\<rparr>)"
      unfolding I_def using painted_step [OF x y p refl] by blast
    ultimately show ?thesis by blast
  qed
  have "\<exists>t. for_each (range_py (int (nat gh)))
              (\<lambda>y. for_each (range_py (int (nat gw))) (clear_cell y)) w = Inr t
             \<and> I (nat gh * nat gw) t"
    using init step by (rule for_grid_rule)
  then obtain g where run: "clear_grid gw gh w = Inr (w\<lparr>current_grid := g\<rparr>)"
    and p: "painted gw gh (\<lambda>_ _. 0) (current_grid w) (nat gh * nat gw) g"
    unfolding I_def range_py_nat clear_grid_def by blast
  have "g = initial_grid gw gh"
    using painted_full [OF p] shape_initial_grid [of gw gh]
    by (intro grid_eqI [of gw gh]) (simp_all add: cell_initial_grid)
  with run show ?thesis by simp
qed

lemma random_cell_eq:
  assumes "grid_shape gw gh (current_grid w)" "in_grid gw gh x y"
  shows "random_cell y x w =
         Inr (w\<lparr>current_grid := put (current_grid w) x y (if random_source w 0 < 0.4 then 1 else 0),
                random_source := \<lambda>n. random_source w (Suc n)\<rparr>)"
  by (simp add: random_cell_def random_random_def grid_set_in [OF assms])

lemma random_fill_eq:
  assumes cur: "grid_shape gw gh (current_grid w)"
  shows "\<exists>g. for_each (range_py gh) (\<lambda>y. for_each (range_py gw) (\<lambda>x. random_cell y x)) w
              = Inr (w\<lparr>current_grid := g,
                       random_source := \<lambda>m. random_source w (m + nat gh * nat gw)\<rparr>)
             \<and> grid_shape gw gh g
             \<and> (\<forall>x y. in_grid gw gh x y \<longrightarrow>
                   cell g x y = (if random_source w (draw_index gw x y) < 0.4 then 1 else 0))"
proof -
  define f where "f = (\<lambda>x y. if random_source w (draw_index gw x y) < 0.4 then 1 else (0::int))"
  define I where "I = (\<lambda>n t. \<exists>g. t = w\<lparr>current_grid := g,
                                          random_source := \<lambda>m. random_source w (m + n)\<rparr> \<and>
                                  painted gw gh f (current_grid w) n g)"
  have init: "I 0 w"
    unfolding I_def using painted_init [OF cur] by (intro exI [of _ "current_grid w"]) simp
  have step: "\<exists>t'. random_cell (int y) (int x) t = Inr t' \<and> I (Suc (y * nat gw + x)) t'"
    if x: "x < nat gw" and y: "y < nat gh" and inv: "I (y * nat gw + x) t" for x y t
  proof -
    let ?n = "y * nat gw + x"
    from inv obtain g where t: "t = w\<lparr>current_grid := g,
                                      random_source := \<lambda>m. random_source w (m + ?n)\<rparr>"
      and p: "painted gw gh f (current_grid w) ?n g"
      unfolding I_def by blast
    have g: "grid_shape gw gh g"
      using p by (simp add: painted_def)
    have v: "(if random_source w ?n < 0.4 then 1 else 0) = f (int x) (int y)"
      by (simp add: f_def draw_index_def)
    have "random_cell (int y) (int x) t =
          Inr (w\<lparr>current_grid := put g (int x) (int y) (if random_source w ?n < 0.4 then 1 else 0),
                 random_source := \<lambda>m. random_source w (m + Suc ?n)\<rparr>)"
      using random_cell_eq [of gw gh t "int x" "int y"] g in_grid_nat [OF x y]
      by (simp add: t)
    moreover have "painted gw gh f (current_grid w) (Suc ?n)
                     (put g (int x) (int y) (if random_source w ?n < 0.4 then 1 else 0))"
      using x y p v by (rule painted_step)
    ultimately show ?thesis
      unfolding I_def by blast
  qed
  have "\<exists>t. for_each (range_py (int (nat gh)))
              (\<lambda>y. for_each (range_py (int (nat gw))) (random_cell y)) w = Inr t
             \<and> I (nat gh * nat gw) t"
    using init step by (rule for_grid_rule)
  then show ?thesis
    unfolding I_def range_py_nat f_def using painted_full by blast
qed

lemma placed_Nil: "placed ox oy [] = {}"
  by (simp add: placed_def)

lemma placed_Cons: "placed ox oy ((px, py) # cs) = insert (ox + px, oy + py) (placed ox oy cs)"
  by (simp add: placed_def)

lemma stamp_cell_in:
  assumes "grid_shape gw gh (current_grid w)" "in_grid gw gh (ox + px) (oy + py)"
  shows "stamp_cell gw gh ox oy (px, py) w =
         Inr (w\<lparr>current_grid := put (current_grid w) (ox + px) (oy + py) 1\<rparr>)"
  using assms(2) by (simp add: stamp_cell_def Let_def grid_set_in [OF assms] in_grid_def)

lemma stamp_cell_out:
  assumes "\<not> in_grid gw gh (ox + px) (oy + py)"
  shows "stamp_cell gw gh ox oy (px, py) w = Inr w"
  using assms by (auto simp add: stamp_cell_def Let_def in_grid_def)

lemma stamp_loop:
  assumes "grid_shape gw gh (current_grid w)"
  shows "\<exists>g. for_each cs (stamp_cell gw gh ox oy) w = Inr (w\<lparr>current_grid := g\<rparr>)
             \<and> grid_shape gw gh g
             \<and> (\<forall>x y. in_grid gw gh x y \<longrightarrow>
                   cell g x y = (if (x, y) \<in> placed ox oy cs then 1 else cell (current_grid w) x y))"
  using assms
proof (induction cs arbitrary: w)
  case Nil
  then show ?case
    by (intro exI [of _ "current_grid w"]) (simp add: placed_Nil)
next
  case (Cons c cs)
  obtain px py where c: "c = (px, py)"
    by (cases c)
  show ?case
  proof (cases "in_grid gw gh (ox + px) (oy + py)")
    case True
    let ?w1 = "w\<lparr>current_grid := put (current_grid w) (ox + px) (oy + py) 1\<rparr>"
    have one: "stamp_cell gw gh ox oy c w = Inr ?w1"
      unfolding c using Cons.prems True by (rule stamp_cell_in)
    have shape1: "grid_shape gw gh (current_grid ?w1)"
      using shape_put [OF Cons.prems True] by simp
    from Cons.IH [OF shape1] obtain g where
      run: "for_each cs (stamp_cell gw gh ox oy) ?w1 = Inr (?w1\<lparr>current_grid := g\<rparr>)"
      and g: "grid_shape gw gh g"
      and cells: "\<And>x y. in_grid gw gh x y \<Longrightarrow>
                   cell g x y = (if (x, y) \<in> placed ox oy cs then 1
                                 else cell (put (current_grid w) (ox + px) (oy + py) 1) x y)"
      by auto
    have "for_each (c # cs) (stamp_cell gw gh ox oy) w = Inr (w\<lparr>current_grid := g\<rparr>)"
      by (simp add: one run)
    moreover have "\<forall>x y. in_grid gw gh x y \<longrightarrow>
                   cell g x y = (if (x, y) \<in> placed ox oy (c # cs) then 1 else cell (current_grid w) x y)"
      using cells cell_put [OF Cons.prems True]
      by (auto simp add: c placed_Cons)
    ultimately show ?thesis
      using g by blast
  next
    case False
    have one: "stamp_cell gw gh ox oy c w = Inr w"
      unfolding c using False by (rule stamp_cell_out)
    from Cons.IH [OF Cons.prems] obtain g where
      run: "for_each cs (stamp_cell gw gh ox oy) w = Inr (w\<lparr>current_grid := g\<rparr>)"
      and g: "grid_shape gw gh g"
      and cells: "\<And>x y. in_grid gw gh x y \<Longrightarrow>
                   cell g x y = (if (x, y) \<in> placed ox oy cs then 1 else cell (current_grid w) x y)"
      by auto
    have "for_each (c # cs) (stamp_cell gw gh ox oy) w = Inr (w\<lparr>current_grid := g\<rparr>)"
      by (simp add: one run)
    moreover have "\<forall>x y. in_grid gw gh x y \<longrightarrow>
                   cell g x y = (if (x, y) \<in> placed ox oy (c # cs) then 1 else cell (current_grid w) x y)"
      using cells False
      by (auto simp add: c placed_Cons)
    ultimately show ?thesis
      using g by blast
  qed
qed

lemma getitem_patterns:
  "0 \<le> i \<Longrightarrow> i < int (length patterns) \<Longrightarrow> getitem patterns i = Inr (patterns ! nat i)"
  by (rule getitem_in)

lemma load_pattern_named:
  assumes cur: "grid_shape gw gh (current_grid w)"
    and i: "0 \<le> i" "i < int (length patterns)"
    and nm: "name (patterns ! nat i) \<noteq> ''Random''"
  shows "\<exists>g. load_pattern gw gh i w = Inr (w\<lparr>current_grid := g\<rparr>)
             \<and> grid_shape gw gh g
             \<and> (\<forall>x y. in_grid gw gh x y \<longrightarrow>
                   cell g x y =
                     (if (x, y) \<in> placed (fst (pattern_offset gw gh (name (patterns ! nat i))))
                                     (snd (pattern_offset gw gh (name (patterns ! nat i))))
                                     (cells (patterns ! nat i))
                      then 1 else 0))"
proof -
  let ?p = "patterns ! nat i"
  let ?w = "w\<lparr>current_grid := initial_grid gw gh\<rparr>"
  obtain ox oy where off: "pattern_offset gw gh (name ?p) = (ox, oy)"
    by (cases "pattern_offset gw gh (name ?p)")
  have shape: "grid_shape gw gh (current_grid ?w)"
    by (simp add: shape_initial_grid)
  from stamp_loop [OF shape, of "cells ?p" ox oy] obtain g where
    run: "for_each (cells ?p) (stamp_cell gw gh ox oy) ?w = Inr (w\<lparr>current_grid := g\<rparr>)"
    and g: "grid_shape gw gh g"
    and cells: "\<And>x y. in_grid gw gh x y \<Longrightarrow>
                 cell g x y = (if (x, y) \<in> placed ox oy (cells ?p) then 1
                               else cell (initial_grid gw gh) x y)"
    by auto
  have "load_pattern gw gh i w = Inr (w\<lparr>current_grid := g\<rparr>)"
    by (simp add: load_pattern_def clear_grid_eq [OF cur] getitem_patterns [OF i] nm off run)
  then show ?thesis
    using g cells by (auto simp add: off cell_initial_grid)
qed

lemma load_pattern_random:
  assumes cur: "grid_shape gw gh (current_grid w)"
    and i: "0 \<le> i" "i < int (length patterns)"
    and nm: "name (patterns ! nat i) = ''Random''"
  shows "\<exists>g. load_pattern gw gh i w =
                Inr (w\<lparr>current_grid := g,
                       random_source := \<lambda>m. random_source w (m + nat gh * nat gw)\<rparr>)
             \<and> grid_shape gw gh g
             \<and> (\<forall>x y. in_grid gw gh x y \<longrightarrow>
                   cell g x y = (if random_source w (draw_index gw x y) < 0.4 then 1 else 0))"
proof -
  let ?w = "w\<lparr>current_grid := initial_grid gw gh\<rparr>"
  have shape: "grid_shape gw gh (current_grid ?w)"
    by (simp add: shape_initial_grid)
  from random_fill_eq [OF shape] obtain g where
    run: "for_each (range_py gh) (\<lambda>y. for_each (range_py gw) (\<lambda>x. random_cell y x)) ?w
          = Inr (w\<lparr>current_grid := g,
                   random_source := \<lambda>m. random_source w (m + nat gh * nat gw)\<rparr>)"
    and g: "grid_shape gw gh g"
      "\<forall>x y. in_grid gw gh x y \<longrightarrow>
          cell g x y = (if random_source w (draw_index gw x y) < 0.4 then 1 else 0)"
    by auto
  have "load_pattern gw gh i w =
          Inr (w\<lparr>current_grid := g,
                 random_source := \<lambda>m. random_source w (m + nat gh * nat gw)\<rparr>)"
    by (simp add: load_pattern_def clear_grid_eq [OF cur] getitem_patterns [OF i] nm run)
  then show ?thesis
    using g by blast
qed

lemma load_pattern_stamped:
  assumes cur: "grid_shape gw gh (current_grid w)"
    and i: "0 \<le> i" "i < int (length patterns)"
  shows "\<exists>w'. load_pattern gw gh i w = Inr w'
             \<and> next_grid w' = next_grid w \<and> state w' = state w
             \<and> grid_shape gw gh (current_grid w')
             \<and> (\<forall>x y. in_grid gw gh x y \<longrightarrow>
                   cell (current_grid w') x y =
                     (if stamped gw gh (random_source w) (patterns ! nat i) x y then 1 else 0))"
proof (cases "name (patterns ! nat i) = ''Random''")
  case True
  from load_pattern_random [OF cur i True] show ?thesis
    by (auto simp add: stamped_def True)
next
  case False
  from load_pattern_named [OF cur i False] show ?thesis
    by (auto simp add: stamped_def False split: prod.splits)
qed

section \<open>What a call leaves unchanged\<close>

lemma bind_err_Inr_iff: "bind_err m f = Inr r \<longleftrightarrow> (\<exists>v. m = Inr v \<and> f v = Inr r)"
  by (cases m) simp_all

lemma for_each_preserves:
  assumes body: "\<And>i s s'. body i s = Inr s' \<Longrightarrow> P s \<Longrightarrow> P s'"
    and run: "for_each xs body s = Inr s'" and start: "P s"
  shows "P s'"
  using run start
proof (induction xs arbitrary: s)
  case Nil
  then show ?case by simp
next
  case (Cons i xs)
  from Cons.prems(1) obtain t where t: "body i s = Inr t" "for_each xs body t = Inr s'"
    by (auto simp add: bind_err_Inr_iff)
  from body [OF t(1) Cons.prems(2)] have "P t" .
  with Cons.IH t(2) show ?case by blast
qed

lemma clear_cell_frame: "clear_cell y x s = Inr s' \<Longrightarrow> same_frame w s \<Longrightarrow> same_frame w s'"
  by (auto simp add: clear_cell_def bind_err_Inr_iff same_frame_def)

lemma random_cell_frame: "random_cell y x s = Inr s' \<Longrightarrow> same_frame w s \<Longrightarrow> same_frame w s'"
  by (auto simp add: random_cell_def random_random_def bind_err_Inr_iff same_frame_def)

lemma stamp_cell_frame:
  "stamp_cell gw gh ox oy c s = Inr s' \<Longrightarrow> same_frame w s \<Longrightarrow> same_frame w s'"
  by (cases c)
     (auto simp add: stamp_cell_def Let_def bind_err_Inr_iff same_frame_def split: if_splits)

lemma grid_loop_frame:
  assumes body: "\<And>y x s s'. body y x s = Inr s' \<Longrightarrow> same_frame w s \<Longrightarrow> same_frame w s'"
    and run: "for_each ys (\<lambda>y. for_each xs (body y)) s = Inr s'" and start: "same_frame w s"
  shows "same_frame w s'"
proof (rule for_each_preserves [where P = "same_frame w", OF _ run start])
  fix y t t' assume "for_each xs (body y) t = Inr t'" "same_frame w t"
  then show "same_frame w t'"
    by (rule for_each_preserves [where P = "same_frame w", rotated]) (rule body)
qed

lemma load_pattern_same_frame:
  assumes "load_pattern gw gh i w = Inr w'"
  shows "same_frame w w'"
proof -
  from assms have "\<exists>w1. clear_grid gw gh w = Inr w1 \<and> (\<exists>p. getitem patterns i = Inr p \<and>
               (if name p = ''Random''
                then for_each (range_py gh) (\<lambda>y. for_each (range_py gw) (\<lambda>x. random_cell y x)) w1
                else (case pattern_offset gw gh (name p) of (offset_x, offset_y) \<Rightarrow>
                        for_each (cells p) (stamp_cell gw gh offset_x offset_y) w1)) = Inr w')"
    by (simp add: load_pattern_def bind_err_Inr_iff)
  then obtain w1 and p :: pattern_entry where
    clear: "clear_grid gw gh w = Inr w1"
    and rest: "(if name p = ''Random''
                then for_each (range_py gh) (\<lambda>y. for_each (range_py gw) (\<lambda>x. random_cell y x)) w1
                else (case pattern_offset gw gh (name p) of (offset_x, offset_y) \<Rightarrow>
                        for_each (cells p) (stamp_cell gw gh offset_x offset_y) w1)) = Inr w'"
    by blast
  have "same_frame w w"
    by (simp add: same_frame_def)
  with clear have w1: "same_frame w w1"
    unfolding clear_grid_def by (rule grid_loop_frame [rotated]) (rule clear_cell_frame)
  show ?thesis
  proof (cases "name p = ''Random''")
    case True
    with rest have "for_each (range_py gh) (\<lambda>y. for_each (range_py gw) (\<lambda>x. random_cell y x)) w1
                    = Inr w'"
      by simp
    then show ?thesis
      using w1 by (rule grid_loop_frame [rotated]) (rule random_cell_frame)
  next
    case False
    obtain ox oy where "pattern_offset gw gh (name p) = (ox, oy)"
      by (cases "pattern_offset gw gh (name p)")
    with rest False have "for_each (cells p) (stamp_cell gw gh ox oy) w1 = Inr w'"
      by simp
    then show ?thesis
      using w1 by (rule for_each_preserves [rotated]) (rule stamp_cell_frame)
  qed
qed

lemma length_patterns: "int (length patterns) = 9"
  by (simp add: patterns_def)

section \<open>The transition rule and the neighbour count\<close>

text \<open>
  Claim C2. On a grid of shape \<open>gw \<times> gh\<close> with cells 0 or 1 and for an in-bounds
  \<open>(x, y)\<close>, \<^verbatim>\<open>count_neighbors\<close> returns, without raising, an integer between 0 and 8:
  the number of positions of the Moore neighbourhood of \<open>(x, y)\<close> that are in bounds and
  hold an alive cell. A position outside the grid adds nothing (no wraparound), and
  \<open>(x, y)\<close> itself is not in the neighbourhood.
\<close>

theorem count_neighbors_moore:
  assumes "grid_shape gw gh (current_grid w)" "binary_grid (current_grid w)"
    and "in_grid gw gh x y"
  shows "\<exists>n. count_neighbors gw gh w x y = Inr n \<and> 0 \<le> n \<and> n \<le> 8 \<and>
             n = int (card {p \<in> moore x y.
                        in_grid gw gh (fst p) (snd p) \<and>
                        cell (current_grid w) (fst p) (snd p) = 1}) \<and>
             (x, y) \<notin> moore x y"
proof -
  have "count_neighbors gw gh w x y = Inr (int (live_neighbors gw gh (current_grid w) x y))"
    using assms(1,2) by (rule count_neighbors_live)
  moreover have "int (live_neighbors gw gh (current_grid w) x y) \<le> 8"
    using live_neighbors_le [of gw gh "current_grid w" x y] by simp
  moreover have "(x, y) \<notin> moore x y"
    by (simp add: moore_def)
  ultimately show ?thesis
    by (simp add: live_neighbors_def alive_def)
qed

lemma blinker_world_simps:
  "current_grid blinker_world = blinker_h"
  "next_grid blinker_world = initial_grid 5 5"
  "state blinker_world = initial_state"
  by (simp_all add: blinker_world_def initial_world_def)

theorem count_neighbors_moore_witness:
  "grid_shape 5 5 (current_grid blinker_world) \<and> binary_grid (current_grid blinker_world) \<and>
   in_grid 5 5 2 2 \<and> count_neighbors 5 5 blinker_world 2 2 = Inr 2"
proof -
  have h1: "grid_shape 5 5 (current_grid blinker_world)"
    by (simp add: blinker_world_simps shape_blinker_h)
  have h2: "binary_grid (current_grid blinker_world)"
    by (simp add: blinker_world_simps binary_blinker_h)
  have h3: "in_grid 5 5 2 2"
    by (simp add: in_grid_def)
  have "card {p \<in> moore 2 2. in_grid 5 5 (fst p) (snd p) \<and> cell blinker_h (fst p) (snd p) = 1} = 2"
    using live_blinker_c by (simp add: live_neighbors_def alive_def)
  with count_neighbors_moore [OF h1 h2 h3] have "count_neighbors 5 5 blinker_world 2 2 = Inr 2"
    by (auto simp add: blinker_world_simps)
  with h1 h2 h3 show ?thesis by blast
qed

text \<open>
  Claim C1. On a current grid of shape \<open>gw \<times> gh\<close> with cells 0 or 1 (and a second
  buffer of the same shape, whatever it holds), one \<^verbatim>\<open>update_game\<close> returns, and every
  in-bounds cell of the new current grid follows the rule on the previous grid: an alive
  cell with fewer than 2 or more than 3 live neighbours is dead, an alive cell with 2 or
  3 stays alive, a dead cell with exactly 3 becomes alive, any other dead cell stays
  dead.
\<close>

theorem update_game_rule:
  assumes "grid_shape gw gh (current_grid w)" "binary_grid (current_grid w)"
    and "grid_shape gw gh (next_grid w)"
    and "in_grid gw gh x y"
  shows "\<exists>w'. update_game gw gh w = Inr w' \<and>
           (cell (current_grid w) x y = 1 \<and>
              (live_neighbors gw gh (current_grid w) x y < 2 \<or>
               live_neighbors gw gh (current_grid w) x y > 3)
              \<longrightarrow> cell (current_grid w') x y = 0) \<and>
           (cell (current_grid w) x y = 1 \<and>
              (live_neighbors gw gh (current_grid w) x y = 2 \<or>
               live_neighbors gw gh (current_grid w) x y = 3)
              \<longrightarrow> cell (current_grid w') x y = 1) \<and>
           (cell (current_grid w) x y = 0 \<and> live_neighbors gw gh (current_grid w) x y = 3
              \<longrightarrow> cell (current_grid w') x y = 1) \<and>
           (cell (current_grid w) x y = 0 \<and> live_neighbors gw gh (current_grid w) x y \<noteq> 3
              \<longrightarrow> cell (current_grid w') x y = 0)"
proof -
  from update_game_cells [OF assms(1-3)] obtain g where
    run: "update_game gw gh w =
            Inr (w\<lparr>current_grid := g, next_grid := current_grid w,
                   state := (state w)\<lparr>generation := generation (state w) + 1\<rparr>\<rparr>)"
    and g: "\<forall>x y. in_grid gw gh x y \<longrightarrow> cell g x y = evolve gw gh (current_grid w) x y"
    by blast
  have "cell g x y = rule (cell (current_grid w) x y) (live_neighbors gw gh (current_grid w) x y)"
    using g assms(4) by (simp add: evolve_def)
  then show ?thesis
    by (auto simp add: run rule_def)
qed

lemma live_blinker_top: "live_neighbors 5 5 blinker_h 2 1 = 3"
  by (simp add: live_neighbors_filter around_def alive_def in_grid_def cell_def blinker_h_def)

theorem update_game_rule_witness:
  "grid_shape 5 5 (current_grid blinker_world) \<and> binary_grid (current_grid blinker_world) \<and>
   grid_shape 5 5 (next_grid blinker_world) \<and> in_grid 5 5 2 1 \<and>
   cell (current_grid blinker_world) 2 1 = 0 \<and>
   live_neighbors 5 5 (current_grid blinker_world) 2 1 = 3 \<and>
   (\<exists>w'. update_game 5 5 blinker_world = Inr w' \<and> cell (current_grid w') 2 1 = 1)"
proof -
  have h1: "grid_shape 5 5 (current_grid blinker_world)"
    by (simp add: blinker_world_simps shape_blinker_h)
  have h2: "binary_grid (current_grid blinker_world)"
    by (simp add: blinker_world_simps binary_blinker_h)
  have h3: "grid_shape 5 5 (next_grid blinker_world)"
    by (simp add: blinker_world_simps shape_initial_grid)
  have h4: "in_grid 5 5 2 1"
    by (simp add: in_grid_def)
  have c: "cell (current_grid blinker_world) 2 1 = 0"
    by (simp add: blinker_world_simps cell_def blinker_h_def)
  have n: "live_neighbors 5 5 (current_grid blinker_world) 2 1 = 3"
    by (simp add: blinker_world_simps live_blinker_top)
  from update_game_rule [OF h1 h2 h3 h4] c n
  have "\<exists>w'. update_game 5 5 blinker_world = Inr w' \<and> cell (current_grid w') 2 1 = 1"
    by auto
  with h1 h2 h3 h4 c n show ?thesis by blast
qed

text \<open>
  Claim C7. From the horizontal blinker on the 5 by 5 board (alive at (1,2), (2,2),
  (3,2)), one \<^verbatim>\<open>update_game\<close> gives exactly the vertical line at (2,1), (2,2), (2,3),
  and a second one gives back exactly the horizontal blinker.
\<close>

theorem blinker_period_two:
  assumes "current_grid w = blinker_h" "grid_shape 5 5 (next_grid w)"
  shows "\<exists>w1 w2. update_game 5 5 w = Inr w1 \<and> current_grid w1 = blinker_v \<and>
                 update_game 5 5 w1 = Inr w2 \<and> current_grid w2 = blinker_h"
proof -
  let ?w1 = "w\<lparr>current_grid := blinker_v, next_grid := blinker_h,
               state := (state w)\<lparr>generation := generation (state w) + 1\<rparr>\<rparr>"
  let ?w2 = "?w1\<lparr>current_grid := blinker_h, next_grid := blinker_v,
               state := (state ?w1)\<lparr>generation := generation (state ?w1) + 1\<rparr>\<rparr>"
  have one: "update_game 5 5 w = Inr ?w1"
    using update_game_next_generation [of 5 5 w] assms
    by (simp add: shape_blinker_h binary_blinker_h next_blinker_h)
  have two: "update_game 5 5 ?w1 = Inr ?w2"
    using update_game_next_generation [of 5 5 ?w1]
    by (simp add: shape_blinker_h shape_blinker_v binary_blinker_v next_blinker_v)
  have "current_grid ?w1 = blinker_v" "current_grid ?w2 = blinker_h"
    by simp_all
  with one two show ?thesis by blast
qed

theorem blinker_period_two_witness:
  "current_grid blinker_world = blinker_h \<and> grid_shape 5 5 (next_grid blinker_world) \<and>
   (\<exists>w1 w2. update_game 5 5 blinker_world = Inr w1 \<and> current_grid w1 = blinker_v \<and>
            update_game 5 5 w1 = Inr w2 \<and> current_grid w2 = blinker_h)"
proof -
  have h1: "current_grid blinker_world = blinker_h"
    by (simp add: blinker_world_simps)
  have h2: "grid_shape 5 5 (next_grid blinker_world)"
    by (simp add: blinker_world_simps shape_initial_grid)
  from blinker_period_two [OF h1 h2] h1 h2 show ?thesis by blast
qed

section \<open>Loading a pattern\<close>

text \<open>
  Claim C4. For every valid pattern index and whatever the current grid held before
  (any grid of the right shape), \<^verbatim>\<open>load_pattern\<close> returns and every in-bounds cell of the
  new current grid is alive exactly when the pattern stamps it: all other cells are
  dead, and nothing of the previous contents remains.
\<close>

theorem load_pattern_clears:
  assumes "grid_shape gw gh (current_grid w)"
    and "0 \<le> i" "i < int (length patterns)"
  shows "\<exists>w'. load_pattern gw gh i w = Inr w' \<and>
           grid_shape gw gh (current_grid w') \<and>
           (\<forall>x y. in_grid gw gh x y \<longrightarrow>
              cell (current_grid w') x y =
                (if stamped gw gh (random_source w) (patterns ! nat i) x y then 1 else 0))"
  using load_pattern_stamped [OF assms] by blast

lemma blinker_world_source: "random_source blinker_world = (\<lambda>_. 0)"
  by (simp add: blinker_world_def initial_world_def)

theorem load_pattern_clears_witness:
  "grid_shape 5 5 (current_grid blinker_world) \<and> (0::int) \<le> 0 \<and> 0 < int (length patterns) \<and>
   cell (current_grid blinker_world) 2 2 = 1 \<and>
   (\<exists>w'. load_pattern 5 5 0 blinker_world = Inr w' \<and>
         cell (current_grid w') 2 2 = 0 \<and> cell (current_grid w') 0 0 = 1)"
proof -
  have h1: "grid_shape 5 5 (current_grid blinker_world)"
    by (simp add: blinker_world_simps shape_blinker_h)
  have h2: "(0::int) \<le> 0"
    by simp
  have h3: "0 < int (length patterns)"
    by (simp add: length_patterns)
  have before: "cell (current_grid blinker_world) 2 2 = 1"
    by (simp add: blinker_world_simps cell_def blinker_h_def)
  have s1: "\<not> stamped 5 5 (\<lambda>_. 0) (patterns ! nat 0) 2 2"
    by (simp add: stamped_def patterns_def pattern_offset_def placed_def)
  have s2: "stamped 5 5 (\<lambda>_. 0) (patterns ! nat 0) 0 0"
    by (simp add: stamped_def patterns_def pattern_offset_def placed_def)
  have i1: "in_grid 5 5 2 2" and i2: "in_grid 5 5 0 0"
    by (simp_all add: in_grid_def)
  from load_pattern_clears [OF h1 h2 h3] obtain w' where
    "load_pattern 5 5 0 blinker_world = Inr w'"
    "cell (current_grid w') 2 2 = 0" "cell (current_grid w') 0 0 = 1"
    using s1 s2 i1 i2 by (auto simp add: blinker_world_source)
  with h1 h2 h3 before show ?thesis by blast
qed

text \<open>
  Claim C5. For a named pattern, a cell whose position from the placement offset
  falls outside the grid is dropped: \<^verbatim>\<open>load_pattern\<close> returns without raising, the grid
  keeps its shape, and the alive in-bounds cells are exactly the positions of the
  other cells of the pattern, at \<open>offset + cell\<close> with no reduction modulo the width or
  the height.
\<close>

theorem load_pattern_clips:
  assumes "grid_shape gw gh (current_grid w)"
    and "0 \<le> i" "i < int (length patterns)"
    and "name (patterns ! nat i) \<noteq> ''Random''"
    and "pattern_offset gw gh (name (patterns ! nat i)) = (offset_x, offset_y)"
    and "(px, py) \<in> set (cells (patterns ! nat i))"
    and "\<not> in_grid gw gh (offset_x + px) (offset_y + py)"
  shows "\<exists>w'. load_pattern gw gh i w = Inr w' \<and>
           grid_shape gw gh (current_grid w') \<and>
           (\<forall>x y. in_grid gw gh x y \<longrightarrow>
              (cell (current_grid w') x y = 1 \<longleftrightarrow>
                 (\<exists>(qx, qy) \<in> set (cells (patterns ! nat i)) - {(px, py)}.
                    x = offset_x + qx \<and> y = offset_y + qy)))"
proof -
  from load_pattern_named [OF assms(1-4)] obtain g where
    run: "load_pattern gw gh i w = Inr (w\<lparr>current_grid := g\<rparr>)"
    and g: "grid_shape gw gh g"
    and cells: "\<And>x y. in_grid gw gh x y \<Longrightarrow>
                 cell g x y = (if (x, y) \<in> placed offset_x offset_y (cells (patterns ! nat i))
                               then 1 else 0)"
    by (auto simp add: assms(5))
  have "cell g x y = 1 \<longleftrightarrow>
          (\<exists>(qx, qy) \<in> set (cells (patterns ! nat i)) - {(px, py)}.
             x = offset_x + qx \<and> y = offset_y + qy)"
    if inb: "in_grid gw gh x y" for x y
  proof -
    have "(x, y) \<noteq> (offset_x + px, offset_y + py)"
      using inb assms(7) by auto
    then have "(x, y) \<in> placed offset_x offset_y (cells (patterns ! nat i)) \<longleftrightarrow>
          (\<exists>(qx, qy) \<in> set (cells (patterns ! nat i)) - {(px, py)}.
             x = offset_x + qx \<and> y = offset_y + qy)"
      unfolding placed_def by auto
    then show ?thesis
      using cells [OF inb] by simp
  qed
  with run g show ?thesis by auto
qed

theorem load_pattern_clips_witness:
  "grid_shape 5 5 (current_grid blinker_world) \<and> (0::int) \<le> 0 \<and> 0 < int (length patterns) \<and>
   name (patterns ! nat 0) \<noteq> ''Random'' \<and>
   pattern_offset 5 5 (name (patterns ! nat 0)) = (- 1, - 1) \<and>
   (1, 0) \<in> set (cells (patterns ! nat 0)) \<and> \<not> in_grid 5 5 (- 1 + 1) (- 1 + 0) \<and>
   (\<exists>w'. load_pattern 5 5 0 blinker_world = Inr w' \<and> grid_shape 5 5 (current_grid w') \<and>
         cell (current_grid w') 0 4 \<noteq> 1 \<and> cell (current_grid w') 0 1 = 1)"
proof -
  have h1: "grid_shape 5 5 (current_grid blinker_world)"
    by (simp add: blinker_world_simps shape_blinker_h)
  have h2: "(0::int) \<le> 0"
    by simp
  have h3: "0 < int (length patterns)"
    by (simp add: length_patterns)
  have h4: "name (patterns ! nat 0) \<noteq> ''Random''"
    by (simp add: patterns_def)
  have h5: "pattern_offset 5 5 (name (patterns ! nat 0)) = (- 1, - 1)"
    by (simp add: patterns_def pattern_offset_def)
  have h6: "(1, 0) \<in> set (cells (patterns ! nat 0))"
    by (simp add: patterns_def)
  have h7: "\<not> in_grid 5 5 (- 1 + 1) (- 1 + 0)"
    by (simp add: in_grid_def)
  have i1: "in_grid 5 5 0 4" and i2: "in_grid 5 5 0 1"
    by (simp_all add: in_grid_def)
  have c1: "\<not> (\<exists>(qx, qy) \<in> set (cells (patterns ! nat 0)) - {(1, 0)}.
                (0::int) = - 1 + qx \<and> (4::int) = - 1 + qy)"
    by (simp add: patterns_def)
  have c2: "\<exists>(qx, qy) \<in> set (cells (patterns ! nat 0)) - {(1, 0)}.
                (0::int) = - 1 + qx \<and> (1::int) = - 1 + qy"
    by (simp add: patterns_def)
  from load_pattern_clips [OF h1 h2 h3 h4 h5 h6 h7] obtain w' where
    w': "load_pattern 5 5 0 blinker_world = Inr w'" "grid_shape 5 5 (current_grid w')"
    and cells: "\<And>x y. in_grid 5 5 x y \<Longrightarrow>
          (cell (current_grid w') x y = 1 \<longleftrightarrow>
             (\<exists>(qx, qy) \<in> set (cells (patterns ! nat 0)) - {(1, 0)}.
                x = - 1 + qx \<and> y = - 1 + qy))"
    by blast
  have "cell (current_grid w') 0 4 \<noteq> 1" "cell (current_grid w') 0 1 = 1"
    using cells [OF i1] cells [OF i2] c1 c2 by blast+
  with w' h1 h2 h3 h4 h5 h6 h7 show ?thesis by blast
qed

text \<open>
  Claim C6. A named pattern other than Glider Gun, Pulsar and 10-cell row is placed at
  \<open>(gw div 2 - 3, gh div 2 - 3)\<close>, where \<open>div\<close> on integers rounds down as Python's
  \<^verbatim>\<open>//\<close> does; Glider Gun is placed at \<open>(5, 2)\<close>, Pulsar at
  \<open>(gw div 2 - 6, gh div 2 - 6)\<close> and 10-cell row at \<open>(gw div 2 - 5, gh div 3)\<close>.
\<close>

theorem load_pattern_offsets:
  assumes "grid_shape gw gh (current_grid w)"
    and "0 \<le> i" "i < int (length patterns)"
    and "name (patterns ! nat i) \<noteq> ''Random''"
  shows "\<exists>w'. load_pattern gw gh i w = Inr w' \<and>
           (name (patterns ! nat i) \<notin> {''Glider Gun'', ''Pulsar'', ''10-cell row''} \<longrightarrow>
              placed_at gw gh (current_grid w') (cells (patterns ! nat i))
                (gw div 2 - 3) (gh div 2 - 3)) \<and>
           (name (patterns ! nat i) = ''Glider Gun'' \<longrightarrow>
              placed_at gw gh (current_grid w') (cells (patterns ! nat i)) 5 2) \<and>
           (name (patterns ! nat i) = ''Pulsar'' \<longrightarrow>
              placed_at gw gh (current_grid w') (cells (patterns ! nat i))
                (gw div 2 - 6) (gh div 2 - 6)) \<and>
           (name (patterns ! nat i) = ''10-cell row'' \<longrightarrow>
              placed_at gw gh (current_grid w') (cells (patterns ! nat i))
                (gw div 2 - 5) (gh div 3))"
proof -
  let ?p = "patterns ! nat i"
  from load_pattern_named [OF assms] obtain g where
    run: "load_pattern gw gh i w = Inr (w\<lparr>current_grid := g\<rparr>)"
    and cells: "\<And>x y. in_grid gw gh x y \<Longrightarrow>
                 cell g x y = (if (x, y) \<in> placed (fst (pattern_offset gw gh (name ?p)))
                                                  (snd (pattern_offset gw gh (name ?p))) (cells ?p)
                               then 1 else 0)"
    by blast
  have "placed_at gw gh g (cells ?p) (fst (pattern_offset gw gh (name ?p)))
          (snd (pattern_offset gw gh (name ?p)))"
    unfolding placed_at_def using cells by simp
  then show ?thesis
    by (auto simp add: run pattern_offset_def)
qed

lemma grid_dimensions: "GRID_WIDTH 296 = 74" "GRID_HEIGHT 128 = 25"
  by (simp_all add: GRID_WIDTH_def GRID_HEIGHT_def CELL_SIZE_def UI_HEIGHT_def)

theorem load_pattern_offsets_witness:
  "grid_shape 74 25 (current_grid (initial_world 74 25 alternating)) \<and>
   (0::int) \<le> 1 \<and> 1 < int (length patterns) \<and> name (patterns ! nat 1) \<noteq> ''Random'' \<and>
   name (patterns ! nat 1) \<notin> {''Glider Gun'', ''Pulsar'', ''10-cell row''} \<and>
   (\<exists>w'. load_pattern 74 25 1 (initial_world 74 25 alternating) = Inr w' \<and>
         placed_at 74 25 (current_grid w') (cells (patterns ! nat 1)) 34 9)"
proof -
  have h1: "grid_shape 74 25 (current_grid (initial_world 74 25 alternating))"
    by (simp add: initial_world_def shape_initial_grid)
  have h2: "(0::int) \<le> 1"
    by simp
  have h3: "1 < int (length patterns)"
    by (simp add: length_patterns)
  have h4: "name (patterns ! nat 1) \<noteq> ''Random''"
    by (simp add: patterns_def)
  have h5: "name (patterns ! nat 1) \<notin> {''Glider Gun'', ''Pulsar'', ''10-cell row''}"
    by (simp add: patterns_def)
  from load_pattern_offsets [OF h1 h2 h3 h4] h5
  have "\<exists>w'. load_pattern 74 25 1 (initial_world 74 25 alternating) = Inr w' \<and>
         placed_at 74 25 (current_grid w') (cells (patterns ! nat 1)) 34 9"
    by simp
  with h1 h2 h3 h4 h5 show ?thesis by blast
qed

text \<open>
  Claim C9. When the random-fill pattern is loaded, \<^verbatim>\<open>load_pattern\<close> returns and every
  in-bounds cell is alive exactly when its own draw is below 0.4 and dead otherwise.
  The cell \<open>(x, y)\<close> takes the draw number \<open>y * gw + x\<close> of the generator, so that two
  different cells never share a draw, and the call consumes \<open>gh * gw\<close> draws, so that
  the next load runs on later draws. The distribution of the draws belongs to the
  library's generator, whose sequence is a parameter here.
\<close>

theorem load_pattern_random_fill:
  assumes "grid_shape gw gh (current_grid w)"
    and "0 \<le> i" "i < int (length patterns)"
    and "name (patterns ! nat i) = ''Random''"
  shows "\<exists>w'. load_pattern gw gh i w = Inr w' \<and>
           (\<forall>x y. in_grid gw gh x y \<longrightarrow>
              cell (current_grid w') x y =
                (if random_source w (draw_index gw x y) < 0.4 then 1 else 0)) \<and>
           (\<forall>x y x' y'. in_grid gw gh x y \<and> in_grid gw gh x' y' \<and>
              draw_index gw x y = draw_index gw x' y' \<longrightarrow> x = x' \<and> y = y') \<and>
           (\<forall>x y. in_grid gw gh x y \<longrightarrow> draw_index gw x y < nat gh * nat gw) \<and>
           random_source w' = (\<lambda>m. random_source w (m + nat gh * nat gw))"
proof -
  from load_pattern_random [OF assms] obtain g where
    run: "load_pattern gw gh i w =
            Inr (w\<lparr>current_grid := g,
                   random_source := \<lambda>m. random_source w (m + nat gh * nat gw)\<rparr>)"
    and cells: "\<forall>x y. in_grid gw gh x y \<longrightarrow>
          cell g x y = (if random_source w (draw_index gw x y) < 0.4 then 1 else 0)"
    by blast
  have inj: "x = x' \<and> y = y'"
    if "in_grid gw gh x y" "in_grid gw gh x' y'" "draw_index gw x y = draw_index gw x' y'"
    for x y x' y'
  proof -
    have lt: "nat x < nat gw" "nat x' < nat gw"
      and nn: "0 \<le> x" "0 \<le> y" "0 \<le> x'" "0 \<le> y'"
      using that(1,2) by (simp_all add: in_grid_def)
    have "nat x = nat x' \<and> nat y = nat y'"
      using lt that(3) unfolding draw_index_def by (rule idx_inj)
    with nn show ?thesis by linarith
  qed
  have bound: "draw_index gw x y < nat gh * nat gw" if "in_grid gw gh x y" for x y
    unfolding draw_index_def using that by (intro idx_bound) (simp_all add: in_grid_def)
  show ?thesis
    using run cells inj bound by (intro exI [of _ "w\<lparr>current_grid := g,
        random_source := \<lambda>m. random_source w (m + nat gh * nat gw)\<rparr>"]) auto
qed

theorem load_pattern_random_fill_witness:
  "grid_shape 5 5 (current_grid (initial_world 5 5 alternating)) \<and>
   (0::int) \<le> 8 \<and> 8 < int (length patterns) \<and> name (patterns ! nat 8) = ''Random'' \<and>
   (\<exists>w'. load_pattern 5 5 8 (initial_world 5 5 alternating) = Inr w' \<and>
         cell (current_grid w') 0 0 = 1 \<and> cell (current_grid w') 1 0 = 0 \<and>
         cell (current_grid w') 0 1 = 0 \<and> random_source w' 0 = 9 / 10)"
proof -
  have h1: "grid_shape 5 5 (current_grid (initial_world 5 5 alternating))"
    by (simp add: initial_world_def shape_initial_grid)
  have h2: "(0::int) \<le> 8"
    by simp
  have h3: "8 < int (length patterns)"
    by (simp add: length_patterns)
  have h4: "name (patterns ! nat 8) = ''Random''"
    by (simp add: patterns_def)
  have src: "random_source (initial_world 5 5 alternating) = alternating"
    by (simp add: initial_world_def)
  have i: "in_grid 5 5 0 0" "in_grid 5 5 1 0" "in_grid 5 5 0 1"
    by (simp_all add: in_grid_def)
  have d: "alternating (draw_index 5 0 0) < 0.4" "\<not> alternating (draw_index 5 1 0) < 0.4"
    "\<not> alternating (draw_index 5 0 1) < 0.4" "alternating (0 + nat 5 * nat 5) = 9 / 10"
    by (simp_all add: alternating_def draw_index_def)
  from load_pattern_random_fill [OF h1 h2 h3 h4] obtain w' where
    run: "load_pattern 5 5 8 (initial_world 5 5 alternating) = Inr w'"
    and cells: "\<And>x y. in_grid 5 5 x y \<Longrightarrow>
          cell (current_grid w') x y = (if alternating (draw_index 5 x y) < 0.4 then 1 else 0)"
    and rest: "random_source w' = (\<lambda>m. alternating (m + nat 5 * nat 5))"
    unfolding src by blast
  have "cell (current_grid w') 0 0 = 1" "cell (current_grid w') 1 0 = 0"
    "cell (current_grid w') 0 1 = 0" "random_source w' 0 = 9 / 10"
    using cells [OF i(1)] cells [OF i(2)] cells [OF i(3)] d rest by simp_all
  with run h1 h2 h3 h4 show ?thesis by blast
qed

text \<open>
  Claim C10. Whatever the pattern index and the world, a \<^verbatim>\<open>load_pattern\<close> that returns
  leaves the paused flag, the selected pattern index and the generation counter as
  they were (and the second buffer too). The reset of the counter is the caller's: the
  handler of the reset button sets the counter to 0 and then calls \<^verbatim>\<open>load_pattern\<close>.
\<close>

theorem load_pattern_frame:
  "(\<forall>w'. load_pattern gw gh i w = Inr w' \<longrightarrow>
      paused (state w') = paused (state w) \<and> pattern (state w') = pattern (state w) \<and>
      generation (state w') = generation (state w) \<and> next_grid w' = next_grid w) \<and>
   handle_button gw gh Button_Down w =
     load_pattern gw gh (pattern (state w)) (w\<lparr>state := (state w)\<lparr>generation := 0\<rparr>\<rparr>)"
proof -
  have "same_frame w w'" if "load_pattern gw gh i w = Inr w'" for w'
    using that by (rule load_pattern_same_frame)
  then show ?thesis
    by (simp add: same_frame_def Let_def)
qed

theorem load_pattern_frame_witness:
  "\<exists>w'. load_pattern 5 5 0 (blinker_world\<lparr>state := stale_state\<rparr>) = Inr w' \<and>
        paused (state w') \<and> pattern (state w') = 0 \<and> generation (state w') = 57"
proof -
  have "grid_shape 5 5 (current_grid (blinker_world\<lparr>state := stale_state\<rparr>))"
    by (simp add: blinker_world_simps shape_blinker_h)
  from load_pattern_stamped [OF this, of 0] obtain w' where
    run: "load_pattern 5 5 0 (blinker_world\<lparr>state := stale_state\<rparr>) = Inr w'"
    by (auto simp add: length_patterns)
  with load_pattern_frame [of 5 5 0 "blinker_world\<lparr>state := stale_state\<rparr>"]
  have "paused (state w') \<and> pattern (state w') = 0 \<and> generation (state w') = 57"
    by (simp add: stale_state_def)
  with run show ?thesis by blast
qed

section \<open>The buttons and the startup\<close>

text \<open>
  Claim C8. With the selected index \<open>i\<close> in \<open>[0, N)\<close>, \<open>N\<close> the number of patterns, the
  next-pattern button selects \<open>(i + 1) mod N\<close> and the previous-pattern button selects
  \<open>(i - 1) mod N\<close>; each sets the generation counter to 0 and loads the selected
  pattern, so that the in-bounds cells are alive exactly where that pattern stamps them.
\<close>

theorem pattern_buttons_cycle:
  assumes "grid_shape gw gh (current_grid w)"
    and "0 \<le> pattern (state w)" "pattern (state w) < int (length patterns)"
  shows "(\<exists>w'. handle_button gw gh Button_C w = Inr w' \<and>
            pattern (state w') = (pattern (state w) + 1) mod int (length patterns) \<and>
            generation (state w') = 0 \<and>
            (\<forall>x y. in_grid gw gh x y \<longrightarrow>
               cell (current_grid w') x y =
                 (if stamped gw gh (random_source w)
                       (patterns ! nat ((pattern (state w) + 1) mod int (length patterns))) x y
                  then 1 else 0))) \<and>
         (\<exists>w'. handle_button gw gh Button_A w = Inr w' \<and>
            pattern (state w') = (pattern (state w) - 1) mod int (length patterns) \<and>
            generation (state w') = 0 \<and>
            (\<forall>x y. in_grid gw gh x y \<longrightarrow>
               cell (current_grid w') x y =
                 (if stamped gw gh (random_source w)
                       (patterns ! nat ((pattern (state w) - 1) mod int (length patterns))) x y
                  then 1 else 0)))"
proof -
  have sel: "\<exists>w'. load_pattern gw gh j (w\<lparr>state := (state w)\<lparr>pattern := j, generation := 0\<rparr>\<rparr>) = Inr w' \<and>
            pattern (state w') = j \<and> generation (state w') = 0 \<and>
            (\<forall>x y. in_grid gw gh x y \<longrightarrow>
               cell (current_grid w') x y =
                 (if stamped gw gh (random_source w) (patterns ! nat j) x y then 1 else 0))"
    if j: "0 \<le> j" "j < int (length patterns)" for j
  proof -
    let ?w2 = "w\<lparr>state := (state w)\<lparr>pattern := j, generation := 0\<rparr>\<rparr>"
    have "grid_shape gw gh (current_grid ?w2)"
      using assms(1) by simp
    from load_pattern_stamped [OF this j] show ?thesis
      by auto
  qed
  have n: "(0::int) < int (length patterns)"
    by (simp add: length_patterns)
  have up: "0 \<le> (pattern (state w) + 1) mod int (length patterns)"
    "(pattern (state w) + 1) mod int (length patterns) < int (length patterns)"
    using n by simp_all
  have down: "0 \<le> (pattern (state w) - 1) mod int (length patterns)"
    "(pattern (state w) - 1) mod int (length patterns) < int (length patterns)"
    using n by simp_all
  show ?thesis
    using sel [OF up] sel [OF down] by (simp add: Let_def)
qed

lemma last_pattern_world_simps:
  "current_grid last_pattern_world = initial_grid 5 5"
  "pattern (state last_pattern_world) = 8"
  by (simp_all add: last_pattern_world_def initial_world_def)

theorem pattern_buttons_cycle_witness:
  "grid_shape 5 5 (current_grid last_pattern_world) \<and>
   0 \<le> pattern (state last_pattern_world) \<and>
   pattern (state last_pattern_world) < int (length patterns) \<and>
   (\<exists>w'. handle_button 5 5 Button_C last_pattern_world = Inr w' \<and>
         pattern (state w') = 0 \<and> generation (state w') = 0) \<and>
   (\<exists>w'. handle_button 5 5 Button_A last_pattern_world = Inr w' \<and>
         pattern (state w') = 7 \<and> generation (state w') = 0)"
proof -
  have h1: "grid_shape 5 5 (current_grid last_pattern_world)"
    by (simp add: last_pattern_world_simps shape_initial_grid)
  have h2: "0 \<le> pattern (state last_pattern_world)"
    by (simp add: last_pattern_world_simps)
  have h3: "pattern (state last_pattern_world) < int (length patterns)"
    by (simp add: last_pattern_world_simps length_patterns)
  have m: "(pattern (state last_pattern_world) + 1) mod int (length patterns) = 0"
    "(pattern (state last_pattern_world) - 1) mod int (length patterns) = 7"
    by (simp_all add: last_pattern_world_simps length_patterns)
  from pattern_buttons_cycle [OF h1 h2 h3]
  have "(\<exists>w'. handle_button 5 5 Button_C last_pattern_world = Inr w' \<and>
         pattern (state w') = 0 \<and> generation (state w') = 0) \<and>
        (\<exists>w'. handle_button 5 5 Button_A last_pattern_world = Inr w' \<and>
         pattern (state w') = 7 \<and> generation (state w') = 0)"
    unfolding m by blast
  with h1 h2 h3 show ?thesis by blast
qed

text \<open>
  Claim C3, at the startup. The storage holds the state of an earlier run, whose
  counter stands at 57. The startup restores that state and loads the first pattern
  on the 74 by 25 grid of the device: the R-pentomino is freshly stamped (its cell
  (1, 0) at (35, 9)), and the generation counter is still 57, not 0. The three button
  handlers assign 0 to the counter before they call \<^verbatim>\<open>load_pattern\<close>; the startup has no
  such assignment.
\<close>

theorem startup_keeps_saved_generation:
  "\<exists>w'. startup 74 25 (Some stale_state) (initial_world 74 25 alternating) = Inr w' \<and>
        pattern (state w') = 0 \<and> cell (current_grid w') 35 9 = 1 \<and>
        generation (state w') = 57"
proof -
  let ?w = "(initial_world 74 25 alternating)\<lparr>state := stale_state\<rparr>"
  have run: "startup 74 25 (Some stale_state) (initial_world 74 25 alternating) =
             load_pattern 74 25 0 ?w"
    by (simp add: startup_def state_load_def Let_def stale_state_def length_patterns)
  have shape: "grid_shape 74 25 (current_grid ?w)"
    by (simp add: initial_world_def shape_initial_grid)
  have i: "(0::int) \<le> 0" "0 < int (length patterns)"
    by (simp_all add: length_patterns)
  have s: "stamped 74 25 (random_source ?w) (patterns ! nat 0) 35 9"
    by (simp add: stamped_def patterns_def pattern_offset_def placed_def)
  have inb: "in_grid 74 25 35 9"
    by (simp add: in_grid_def)
  from load_pattern_stamped [OF shape i] obtain w' where
    w': "load_pattern 74 25 0 ?w = Inr w'" "state w' = state ?w"
    and cells: "\<And>x y. in_grid 74 25 x y \<Longrightarrow>
          cell (current_grid w') x y =
            (if stamped 74 25 (random_source ?w) (patterns ! nat 0) x y then 1 else 0)"
    by blast
  have "pattern (state w') = 0" "generation (state w') = 57"
    using w'(2) by (simp_all add: stale_state_def)
  moreover have "cell (current_grid w') 35 9 = 1"
    using cells [OF inb] s by simp
  ultimately show ?thesis
    using run w'(1) by simp
qed

end
